theory Spec2Isabelle
  imports Complex_Main
begin

section \<open>JavaScript values\<close>

text \<open>
  A JavaScript string is a sequence of UTF-16 code units; a code unit is a natural number.
  Numbers that hold pixel positions are reals, indices and timestamps are integers.
  \<open>js\<close> turns an ASCII literal into such a string.
\<close>

type_synonym jsstring = "nat list"

definition js :: "string \<Rightarrow> jsstring" where
  "js s = map of_char s"

text \<open>
  White space and line terminators of ECMAScript: what \<open>\\s\<close>, \<open>trim\<close> and the
  prefix skipped by \<open>parseInt\<close> all use.
\<close>

definition isWhiteSpace :: "nat \<Rightarrow> bool" where
  "isWhiteSpace c =
     (c = 9 \<or> c = 10 \<or> c = 11 \<or> c = 12 \<or> c = 13 \<or> c = 32 \<or> c = 160 \<or> c = 5760
      \<or> (8192 \<le> c \<and> c \<le> 8202) \<or> c = 8232 \<or> c = 8233 \<or> c = 8239 \<or> c = 8287
      \<or> c = 12288 \<or> c = 65279)"

definition isDigit :: "nat \<Rightarrow> bool" where
  "isDigit c = (48 \<le> c \<and> c \<le> 57)"

definition trim :: "jsstring \<Rightarrow> jsstring" where
  "trim s = rev (dropWhile isWhiteSpace (rev (dropWhile isWhiteSpace s)))"

text \<open>\<open>a || b\<close> on strings: the empty string is falsy.\<close>

definition strOr :: "jsstring \<Rightarrow> jsstring \<Rightarrow> jsstring" where
  "strOr a b = (if a = [] then b else a)"

text \<open>\<open>a || b\<close> on numbers: zero is falsy.\<close>

definition numOr :: "real \<Rightarrow> real \<Rightarrow> real" where
  "numOr a b = (if a = 0 then b else a)"

text \<open>
  \<open>opt && test(opt)\<close> for an optional string option of the manager: the option counts
  only when it is set and not empty.
\<close>

fun guarded :: "jsstring option \<Rightarrow> (jsstring \<Rightarrow> bool) \<Rightarrow> bool" where
  "guarded None p = False"
| "guarded (Some s) p = (s \<noteq> [] \<and> p s)"

definition digitsValue :: "jsstring \<Rightarrow> nat" where
  "digitsValue ds = foldl (\<lambda>a d. 10 * a + (d - 48)) 0 ds"

text \<open>
  \<open>parseInt(s, 10)\<close>: leading white space is skipped, one sign is read, then the longest
  run of decimal digits; with no digit the result is NaN, here \<open>None\<close>. (A run of more
  than fifteen digits is rounded to a double by JavaScript; the model keeps it exact.)
\<close>

definition parseInt :: "jsstring \<Rightarrow> int option" where
  "parseInt s =
     (let t = dropWhile isWhiteSpace s;
          neg = (case t of [] \<Rightarrow> False | c # _ \<Rightarrow> c = 45);
          u = (case t of [] \<Rightarrow> [] | c # r \<Rightarrow> if c = 45 \<or> c = 43 then r else t);
          ds = takeWhile isDigit u
      in if ds = [] then None
         else Some ((if neg then - 1 else 1) * int (digitsValue ds)))"

text \<open>\<open>Array.prototype.findIndex\<close>: the first index whose entry satisfies the test, else -1.\<close>

fun findIndexFrom :: "('a \<Rightarrow> bool) \<Rightarrow> 'a list \<Rightarrow> int \<Rightarrow> int" where
  "findIndexFrom p [] i = - 1"
| "findIndexFrom p (x # xs) i = (if p x then i else findIndexFrom p xs (i + 1))"

definition findIndex :: "('a \<Rightarrow> bool) \<Rightarrow> 'a list \<Rightarrow> int" where
  "findIndex p xs = findIndexFrom p xs 0"

fun showNat :: "nat \<Rightarrow> jsstring" where
  "showNat n = (if n < 10 then [48 + n] else showNat (n div 10) @ [48 + n mod 10])"

declare showNat.simps [simp del]

section \<open>The table of contents manager\<close>

subsection \<open>The page and the manager's state\<close>

text \<open>
  An element of the document, as far as the manager reads it: its tag, its id (empty when
  it has none), the names of its attributes, its classes, the attribute names of each of
  its ancestors (nearest first) and its text. Elements are referred to by their node
  number; the manager's state holds the document, since \<open>generateTOC\<close> assigns ids.
\<close>

record htmlElement =
  tagName :: jsstring
  elemId :: jsstring
  attributeNames :: "jsstring list"
  classList :: "jsstring list"
  ancestorAttributes :: "jsstring list list"
  textContent :: jsstring

text \<open>
  What the browser answers when a handler runs: the clock, the viewport, the scroll
  position, the layout of each node, the features it supports, the result of the heading
  query, and the two Unicode string functions of the standard library.
\<close>

record browser =
  now :: int
  innerWidth :: int
  pageYOffset :: real
  documentScrollTop :: real
  boundingTop :: "nat \<Rightarrow> real"
  computedScrollMarginTop :: "nat \<Rightarrow> jsstring"
  smoothScrollSupported :: bool
  scrollEndSupported :: bool
  querySelectorAll :: "jsstring \<Rightarrow> nat list"
  toLowerCase :: "jsstring \<Rightarrow> jsstring"
  normalizeNFD :: "jsstring \<Rightarrow> jsstring"

text \<open>
  The options. A CSS selector of \<open>excludeSelectors\<close> is given by the elements it matches
  and a pattern of \<open>excludeTextPatterns\<close> by the strings it matches (a regular expression
  without the global or sticky flag, so that \<open>test\<close> has no state).
\<close>

record tocOptions =
  headingSelector :: "jsstring option"
  excludeSelectors :: "(htmlElement \<Rightarrow> bool) list"
  skipAttribute :: "jsstring option"
  skipClass :: "jsstring option"
  skipContainerAttribute :: "jsstring option"
  excludeTextPatterns :: "(jsstring \<Rightarrow> bool) list"

record tocItem =
  itemId :: jsstring
  itemText :: jsstring
  element :: nat

text \<open>An anchor of the navigation list: its target and whether it carries the class \<open>active\<close>.\<close>

record tocLink =
  href :: jsstring
  dataTocIndex :: nat
  active :: bool

text \<open>
  The callbacks the manager hands to \<open>setTimeout\<close>, and the scroll commands it gives the
  window. A link is named by its position among the anchors of the navigation list.
\<close>

datatype callback =
    SafetyReset
  | DelayedScroll nat nat
  | MobileAdjust nat real
  | DesktopFallback nat real
  | CheckScroll nat real nat

datatype scrollRequest =
    ScrollIntoView nat
  | ScrollBy real
  | ScrollTo real bool

text \<open>
  The state: the fields of the class (the three element references as flags saying whether
  the element was found), then the parts of the page the manager changes and reads back:
  the document, the anchors of \<open>#toc-nav\<close>, the class \<open>collapsed\<close> of \<open>#toc\<close>, whether
  \<open>#toc\<close> has an \<open>h3\<close> header, whether that header carries the toggle listeners and the
  three variables of their closure, the pending timers (due time and callback), the
  \<open>scrollend\<close> listeners and the scroll commands issued so far. Attributes and styles that
  the code only writes (ARIA attributes, the classes \<open>loading\<close> and \<open>navigating\<close>, screen
  reader announcements) are left out: no branch reads them.
\<close>

record manager =
  tocItems :: "tocItem list"
  currentActiveIndex :: int
  articleContent :: bool
  tocNav :: bool
  tocContainer :: bool
  isScrolling :: bool
  isMobile :: bool
  lastScrollTimestamp :: int
  elements :: "nat \<Rightarrow> htmlElement"
  nodeCount :: nat
  links :: "tocLink list"
  collapsed :: bool
  tocHeader :: bool
  headerToggle :: bool
  touchStartX :: real
  touchStartY :: real
  isTap :: bool
  timers :: "(int \<times> callback) list"
  scrollEndListeners :: "nat list"
  scrollRequests :: "scrollRequest list"

definition updateDeviceType :: "browser \<Rightarrow> manager \<Rightarrow> manager" where
  "updateDeviceType b m = m\<lparr>isMobile := (innerWidth b \<le> 1024)\<rparr>"

subsection \<open>Building the list\<close>

definition hasAttribute :: "htmlElement \<Rightarrow> jsstring \<Rightarrow> bool" where
  "hasAttribute el a = (a \<in> set (attributeNames el))"

text \<open>\<open>el.closest('[a]')\<close> starts at the element itself and then walks up its ancestors.\<close>

definition closestHasAttribute :: "htmlElement \<Rightarrow> jsstring \<Rightarrow> bool" where
  "closestHasAttribute el a =
     (a \<in> set (attributeNames el) \<or> list_ex (\<lambda>as. a \<in> set as) (ancestorAttributes el))"

definition shouldExcludeHeading :: "tocOptions \<Rightarrow> htmlElement \<Rightarrow> bool" where
  "shouldExcludeHeading opts el =
     (if guarded (skipAttribute opts) (hasAttribute el) then True
      else if guarded (skipClass opts) (\<lambda>c. c \<in> set (classList el)) then True
      else if guarded (skipContainerAttribute opts) (closestHasAttribute el) then True
      else if list_ex (\<lambda>sel. sel el) (excludeSelectors opts) then True
      else if list_ex (\<lambda>re. re (trim (textContent el))) (excludeTextPatterns opts) then True
      else False)"

definition isWordChar :: "nat \<Rightarrow> bool" where
  "isWordChar c = ((48 \<le> c \<and> c \<le> 57) \<or> (65 \<le> c \<and> c \<le> 90) \<or> c = 95 \<or> (97 \<le> c \<and> c \<le> 122))"

text \<open>\<open>replace(/\\s+/g, "-")\<close>: every maximal run of white space becomes one hyphen.\<close>

function dashWhiteSpace :: "jsstring \<Rightarrow> jsstring" where
  "dashWhiteSpace [] = []"
| "dashWhiteSpace (c # cs) =
     (if isWhiteSpace c then 45 # dashWhiteSpace (dropWhile isWhiteSpace cs)
      else c # dashWhiteSpace cs)"
  by pat_completeness auto
termination
  by (relation "measure length") (auto simp: length_dropWhile_le le_imp_less_Suc)

definition generateHeadingId :: "browser \<Rightarrow> htmlElement \<Rightarrow> nat \<Rightarrow> jsstring" where
  "generateHeadingId b el index =
     toLowerCase b (tagName el) @ js ''-'' @ showNat index @ js ''-''
       @ take 50 (dashWhiteSpace
           (filter (\<lambda>c. isWordChar c \<or> isWhiteSpace c \<or> c = 45)
             (filter (\<lambda>c. \<not> (768 \<le> c \<and> c \<le> 879))
               (normalizeNFD b (toLowerCase b (textContent el))))))"

definition createTocLink :: "tocItem \<Rightarrow> nat \<Rightarrow> tocLink" where
  "createTocLink item index = \<lparr>href = js ''#'' @ itemId item, dataTocIndex = index, active = False\<rparr>"

subsection \<open>The collapsible header\<close>

definition setupHeaderToggle :: "manager \<Rightarrow> manager" where
  "setupHeaderToggle m = m\<lparr>headerToggle := True, touchStartY := 0, touchStartX := 0, isTap := True\<rparr>"

text \<open>
  The header is replaced by a clone, which carries no listener; on mobile the clone gets the
  toggle listeners and the panel is collapsed when the list is long or the viewport narrow.
\<close>

definition setupMobileInteraction :: "browser \<Rightarrow> manager \<Rightarrow> manager" where
  "setupMobileInteraction b m =
     (if \<not> tocContainer m then m
      else if \<not> tocHeader m then m
      else
        let m1 = m\<lparr>headerToggle := False\<rparr> in
        if isMobile m1 then
          let m2 = setupHeaderToggle m1 in
          if length (tocItems m2) > 6 \<or> innerWidth b \<le> 768 then m2\<lparr>collapsed := True\<rparr> else m2
        else m1)"

definition toggleCollapse :: "manager \<Rightarrow> manager" where
  "toggleCollapse m = (if \<not> tocContainer m then m else m\<lparr>collapsed := \<not> collapsed m\<rparr>)"

definition handleTouchStart :: "real \<Rightarrow> real \<Rightarrow> manager \<Rightarrow> manager" where
  "handleTouchStart clientX clientY m = m\<lparr>touchStartY := clientY, touchStartX := clientX, isTap := True\<rparr>"

definition handleTouchMove :: "real \<Rightarrow> real \<Rightarrow> manager \<Rightarrow> manager" where
  "handleTouchMove clientX clientY m =
     (let deltaY = \<bar>clientY - touchStartY m\<bar>;
          deltaX = \<bar>clientX - touchStartX m\<bar>
      in if deltaY > 10 \<or> deltaX > 10 then m\<lparr>isTap := False\<rparr> else m)"

definition handleTouchEnd :: "manager \<Rightarrow> manager" where
  "handleTouchEnd m = (if isTap m then toggleCollapse m else m)"

definition headerClick :: "manager \<Rightarrow> manager" where
  "headerClick m = (if \<not> isMobile m then m else toggleCollapse m)"

definition headerKeydown :: "jsstring \<Rightarrow> manager \<Rightarrow> manager" where
  "headerKeydown key m = (if key = js ''Enter'' \<or> key = js '' '' then toggleCollapse m else m)"

subsection \<open>generateTOC\<close>

text \<open>\<open>el.id = v\<close> sets the id and, with it, the attribute \<open>id\<close>.\<close>

definition setId :: "jsstring \<Rightarrow> htmlElement \<Rightarrow> htmlElement" where
  "setId v el =
     el\<lparr>elemId := v,
        attributeNames := (if js ''id'' \<in> set (attributeNames el) then attributeNames el
                           else attributeNames el @ [js ''id''])\<rparr>"

text \<open>
  The callback of the \<open>forEach\<close> over the matched headings, and the loop: \<open>index\<close>
  counts every matched heading, the position in the list only the headings kept. The
  links are collected in a fragment.
\<close>

definition headingCallback ::
  "tocOptions \<Rightarrow> browser \<Rightarrow> nat \<Rightarrow> nat \<Rightarrow> manager \<times> tocLink list \<Rightarrow> manager \<times> tocLink list" where
  "headingCallback opts b heading index st =
     (let m = fst st; fragment = snd st;
          headingElement = elements m heading
      in if shouldExcludeHeading opts headingElement then (m, fragment)
         else
           let newId = (if elemId headingElement = []
                        then generateHeadingId b headingElement index
                        else elemId headingElement);
               m1 = (if elemId headingElement = []
                     then m\<lparr>elements := (elements m)(heading := setId newId headingElement)\<rparr>
                     else m);
               item = \<lparr>itemId = newId, itemText = textContent headingElement, element = heading\<rparr>;
               m2 = m1\<lparr>tocItems := tocItems m1 @ [item]\<rparr>
           in (m2, fragment @ [createTocLink item (length (tocItems m2) - 1)]))"

fun headingLoop ::
  "tocOptions \<Rightarrow> browser \<Rightarrow> nat list \<Rightarrow> nat \<Rightarrow> manager \<times> tocLink list \<Rightarrow> manager \<times> tocLink list" where
  "headingLoop opts b [] index st = st"
| "headingLoop opts b (heading # rest) index st =
     headingLoop opts b rest (index + 1) (headingCallback opts b heading index st)"

definition selectorOrDefault :: "jsstring option \<Rightarrow> jsstring" where
  "selectorOrDefault s = (case s of None \<Rightarrow> js ''h2, h3'' | Some t \<Rightarrow> strOr t (js ''h2, h3''))"

text \<open>
  With an element missing nothing happens; with no heading matched the panel is hidden (a
  style the code only writes) and the list is left as it was.
\<close>

definition generateTOC :: "tocOptions \<Rightarrow> browser \<Rightarrow> manager \<Rightarrow> manager" where
  "generateTOC opts b m =
     (if \<not> articleContent m \<or> \<not> tocNav m \<or> \<not> tocContainer m then m
      else
        let headings = querySelectorAll b (selectorOrDefault (headingSelector opts)) in
        if headings = [] then m
        else
          let (m1, fragment) = headingLoop opts b headings 0 (m\<lparr>tocItems := []\<rparr>, [])
          in setupMobileInteraction b (m1\<lparr>links := links m1 @ fragment\<rparr>))"

subsection \<open>Tracking and navigation\<close>

text \<open>\<open>document.getElementById\<close>: the first element of the document with that id.\<close>

definition getElementById :: "manager \<Rightarrow> jsstring \<Rightarrow> nat option" where
  "getElementById m i =
     (if i = [] then None else find (\<lambda>n. elemId (elements m n) = i) [0..<nodeCount m])"

text \<open>
  Every anchor of the navigation list gets the class \<open>active\<close> exactly when its position
  is the given index. Without \<open>#toc-nav\<close> there is no anchor to mark.
\<close>

definition updateActiveLinks :: "int \<Rightarrow> manager \<Rightarrow> manager" where
  "updateActiveLinks activeIndex m =
     (if \<not> tocNav m then m
      else m\<lparr>links := map (\<lambda>(index, link). link\<lparr>active := (int index = activeIndex)\<rparr>)
                          (enumerate 0 (links m))\<rparr>)"

definition onScrollComplete :: "nat \<Rightarrow> manager \<Rightarrow> manager" where
  "onScrollComplete link m =
     (let m1 = m\<lparr>isScrolling := False\<rparr>;
          targetId = drop 1 (href (links m1 ! link))
      in if targetId \<noteq> [] then
           let idx = findIndex (\<lambda>i. itemId i = targetId) (tocItems m1) in
           if idx \<noteq> - 1 \<and> idx \<noteq> currentActiveIndex m1
           then (updateActiveLinks idx m1)\<lparr>currentActiveIndex := idx\<rparr>
           else m1
         else m1)"

definition getDynamicOffset :: "browser \<Rightarrow> manager \<Rightarrow> real" where
  "getDynamicOffset b m =
     (if \<not> isMobile m then 120
      else case tocItems m of
        [] \<Rightarrow> 100
      | first # _ \<Rightarrow>
          (case parseInt (strOr (computedScrollMarginTop b (element first)) (js ''0'')) of
             None \<Rightarrow> 100
           | Some sm \<Rightarrow> if sm > 0 then real_of_int sm else 100))"

text \<open>The loop of \<open>updateActiveTOC\<close>: \<open>i\<close> is the running index, \<open>activeIndex\<close> the last hit.\<close>

fun activeLoop :: "browser \<Rightarrow> real \<Rightarrow> real \<Rightarrow> tocItem list \<Rightarrow> int \<Rightarrow> int \<Rightarrow> int" where
  "activeLoop b scrollTop offset [] i activeIndex = activeIndex"
| "activeLoop b scrollTop offset (item # rest) i activeIndex =
     (let elementTop = boundingTop b (element item) + scrollTop
      in activeLoop b scrollTop offset rest (i + 1)
           (if elementTop \<le> scrollTop + offset then i else activeIndex))"

definition updateActiveTOC :: "browser \<Rightarrow> manager \<Rightarrow> manager" where
  "updateActiveTOC b m =
     (if tocItems m = [] \<or> isScrolling m then m
      else
        let scrollTop = pageYOffset b;
            offset = getDynamicOffset b m;
            activeIndex = activeLoop b scrollTop offset (tocItems m) 0 (- 1)
        in if activeIndex \<noteq> currentActiveIndex m
           then (updateActiveLinks activeIndex m)\<lparr>currentActiveIndex := activeIndex\<rparr>
           else m)"

text \<open>
  \<open>waitForScrollEnd\<close> polls every 50 ms; the poll is the callback \<open>CheckScroll\<close>, which
  carries the last position seen and the number of checks made.
\<close>

definition waitForScrollEnd :: "browser \<Rightarrow> nat \<Rightarrow> manager \<Rightarrow> manager" where
  "waitForScrollEnd b link m =
     m\<lparr>timers := timers m @ [(now b + 50, CheckScroll link (pageYOffset b) 0)]\<rparr>"

definition scrollToElement :: "browser \<Rightarrow> nat \<Rightarrow> nat \<Rightarrow> manager \<Rightarrow> manager" where
  "scrollToElement b target link m =
     (let m0 = (if isScrolling m \<and> now b - lastScrollTimestamp m > 3000
                then m\<lparr>isScrolling := False\<rparr> else m)
      in if isScrolling m0 then m0
         else
           let m1 = m0\<lparr>isScrolling := True, lastScrollTimestamp := now b,
                         timers := timers m0 @ [(now b + 3000, SafetyReset)]\<rparr>;
               offset = getDynamicOffset b m1
           in if isMobile m1 then
                m1\<lparr>scrollRequests := scrollRequests m1 @ [ScrollIntoView target],
                    timers := timers m1 @ [(now b + 320, MobileAdjust link offset)]\<rparr>
              else
                let scrollTop = numOr (pageYOffset b) (documentScrollTop b);
                    elementTop = boundingTop b target + scrollTop;
                    targetPosition = elementTop - offset
                in if smoothScrollSupported b then
                     let m2 = m1\<lparr>scrollRequests := scrollRequests m1 @ [ScrollTo targetPosition True],
                                   timers := timers m1 @ [(now b + 240, DesktopFallback link targetPosition)]\<rparr>
                     in if scrollEndSupported b
                        then m2\<lparr>scrollEndListeners := scrollEndListeners m2 @ [link]\<rparr>
                        else waitForScrollEnd b link m2
                   else
                     onScrollComplete link
                       (m1\<lparr>scrollRequests := scrollRequests m1 @ [ScrollTo targetPosition False]\<rparr>))"

text \<open>
  The click listener of \<open>#toc-nav\<close>, for a click on its \<open>k\<close>-th anchor; a click
  elsewhere in the list (\<open>k\<close> beyond the anchors) is not a click on a link.
\<close>

definition navClick :: "browser \<Rightarrow> nat \<Rightarrow> manager \<Rightarrow> manager" where
  "navClick b k m =
     (if k < length (links m) \<and> take 1 (href (links m ! k)) = js ''#'' then
        let targetId = drop 1 (href (links m ! k)) in
        case getElementById m targetId of
          None \<Rightarrow> m
        | Some targetElement \<Rightarrow>
            if isMobile m \<and> tocContainer m
            then m\<lparr>collapsed := True,
                   timers := timers m @ [(now b + 150, DelayedScroll targetElement k)]\<rparr>
            else scrollToElement b targetElement k m
      else m)"

text \<open>What a timer does when it is due.\<close>

fun runCallback :: "browser \<Rightarrow> callback \<Rightarrow> manager \<Rightarrow> manager" where
  "runCallback b SafetyReset m = (if isScrolling m then m\<lparr>isScrolling := False\<rparr> else m)"
| "runCallback b (DelayedScroll target link) m = scrollToElement b target link m"
| "runCallback b (MobileAdjust link offset) m =
     onScrollComplete link (m\<lparr>scrollRequests := scrollRequests m @ [ScrollBy (- offset)]\<rparr>)"
| "runCallback b (DesktopFallback link targetPosition) m =
     (if \<bar>pageYOffset b - targetPosition\<bar> < 4
      then onScrollComplete link
             (m\<lparr>scrollRequests := scrollRequests m @ [ScrollTo targetPosition False]\<rparr>)
      else m)"
| "runCallback b (CheckScroll link lastScrollTop scrollCheckCount) m =
     (let currentScrollTop = pageYOffset b;
          count = scrollCheckCount + 1
      in if \<bar>currentScrollTop - lastScrollTop\<bar> < 1 then onScrollComplete link m
         else if count < 50
         then m\<lparr>timers := timers m @ [(now b + 50, CheckScroll link currentScrollTop count)]\<rparr>
         else onScrollComplete link m)"

text \<open>The \<open>scrollend\<close> event: every listener runs once, in the order of registration.\<close>

definition scrollEnd :: "manager \<Rightarrow> manager" where
  "scrollEnd m = fold onScrollComplete (scrollEndListeners m) (m\<lparr>scrollEndListeners := []\<rparr>)"

subsection \<open>Events\<close>

text \<open>
  The events of a page view, each standing for the run of one listener: the throttled
  scroll listener, the debounced resize listener and the delayed orientation listener
  (both run the same two calls), a key pressed in the document, a click in the navigation
  list, the five listeners of the header, a pending timer coming due and \<open>scrollend\<close>.
\<close>

datatype event =
    ScrollEvent
  | ResizeEvent
  | DocumentKeydown jsstring
  | NavClick nat
  | HeaderTouchStart real real
  | HeaderTouchMove real real
  | HeaderTouchEnd
  | HeaderClick
  | HeaderKeydown jsstring
  | TimerDue nat
  | ScrollEndEvent

definition documentKeydown :: "jsstring \<Rightarrow> manager \<Rightarrow> manager" where
  "documentKeydown key m =
     (if key = js ''Escape'' \<and> isMobile m \<and> tocContainer m then m\<lparr>collapsed := True\<rparr> else m)"

definition timerDue :: "browser \<Rightarrow> nat \<Rightarrow> manager \<Rightarrow> manager" where
  "timerDue b n m =
     (if n < length (timers m)
      then runCallback b (snd (timers m ! n)) (m\<lparr>timers := take n (timers m) @ drop (Suc n) (timers m)\<rparr>)
      else m)"

fun step :: "browser \<Rightarrow> event \<Rightarrow> manager \<Rightarrow> manager" where
  "step b ScrollEvent m = updateActiveTOC b m"
| "step b ResizeEvent m = setupMobileInteraction b (updateDeviceType b m)"
| "step b (DocumentKeydown key) m = documentKeydown key m"
| "step b (NavClick k) m = (if tocNav m then navClick b k m else m)"
| "step b (HeaderTouchStart x y) m = (if headerToggle m then handleTouchStart x y m else m)"
| "step b (HeaderTouchMove x y) m = (if headerToggle m then handleTouchMove x y m else m)"
| "step b HeaderTouchEnd m = (if headerToggle m then handleTouchEnd m else m)"
| "step b HeaderClick m = (if headerToggle m then headerClick m else m)"
| "step b (HeaderKeydown key) m = (if headerToggle m then headerKeydown key m else m)"
| "step b (TimerDue n) m = timerDue b n m"
| "step b ScrollEndEvent m = scrollEnd m"

text \<open>A page view after \<open>init\<close>: each event comes with the browser's answers at that time.\<close>

fun run :: "(browser \<times> event) list \<Rightarrow> manager \<Rightarrow> manager" where
  "run [] m = m"
| "run ((b, e) # rest) m = run rest (step b e m)"

definition init :: "tocOptions \<Rightarrow> browser \<Rightarrow> manager \<Rightarrow> manager" where
  "init opts b m = updateActiveTOC b (generateTOC opts b m)"

text \<open>
  The anchors agree with the index: the anchor at position \<open>k\<close> carries \<open>active\<close>
  exactly when \<open>k\<close> is the current active index.
\<close>

definition linksInSync :: "manager \<Rightarrow> bool" where
  "linksInSync m =
     list_all (\<lambda>(k, l). active l = (int k = currentActiveIndex m)) (enumerate 0 (links m))"

text \<open>
  A touch gesture on the header: a touch start, any number of touch moves, a touch end,
  each given by the position of the first touch point.
\<close>

definition touchGesture :: "real \<times> real \<Rightarrow> (real \<times> real) list \<Rightarrow> event list" where
  "touchGesture start moves =
     HeaderTouchStart (fst start) (snd start)
       # map (\<lambda>p. HeaderTouchMove (fst p) (snd p)) moves @ [HeaderTouchEnd]"

text \<open>
  A scroll stays in flight over a run of events: the flag \<open>isScrolling\<close> is set before
  each event, each event comes no more than 3000 ms after the scroll that set the flag,
  and the flag is still set at the end.
\<close>

fun flagHeld :: "(browser \<times> event) list \<Rightarrow> manager \<Rightarrow> bool" where
  "flagHeld [] m = isScrolling m"
| "flagHeld ((b, e) # rest) m =
     (isScrolling m \<and> now b - lastScrollTimestamp m \<le> 3000 \<and> flagHeld rest (step b e m))"

subsection \<open>A sample page\<close>

text \<open>
  A document of four headings, the second flagged with the skip attribute, seen in a
  viewport 800 pixels wide and scrolled down by 500 pixels.
\<close>

definition asciiLower :: "jsstring \<Rightarrow> jsstring" where
  "asciiLower s = map (\<lambda>c. if 65 \<le> c \<and> c \<le> 90 then c + 32 else c) s"

definition sampleDocument :: "nat \<Rightarrow> htmlElement" where
  "sampleDocument n =
     (if n = 0 then
        \<lparr>tagName = js ''H2'', elemId = [], attributeNames = [], classList = [],
         ancestorAttributes = [], textContent = js ''Getting started''\<rparr>
      else if n = 1 then
        \<lparr>tagName = js ''H3'', elemId = js ''notes'',
         attributeNames = [js ''id'', js ''data-toc-skip''], classList = [],
         ancestorAttributes = [], textContent = js ''Notes''\<rparr>
      else if n = 2 then
        \<lparr>tagName = js ''H2'', elemId = js ''usage'', attributeNames = [js ''id''],
         classList = [], ancestorAttributes = [], textContent = js ''Usage''\<rparr>
      else
        \<lparr>tagName = js ''H3'', elemId = js ''faq'', attributeNames = [js ''id''],
         classList = [], ancestorAttributes = [], textContent = js ''FAQ''\<rparr>)"

definition sampleBrowser :: browser where
  "sampleBrowser =
     \<lparr>now = 1000, innerWidth = 800, pageYOffset = 500, documentScrollTop = 500,
      boundingTop = (\<lambda>n. if n = 0 then - 300 else if n = 1 then - 100 else if n = 2 then 60 else 700),
      computedScrollMarginTop = (\<lambda>n. js ''96px''),
      smoothScrollSupported = True, scrollEndSupported = True,
      querySelectorAll = (\<lambda>s. [0, 1, 2, 3]),
      toLowerCase = asciiLower, normalizeNFD = (\<lambda>s. s)\<rparr>"

definition sampleOptions :: tocOptions where
  "sampleOptions =
     \<lparr>headingSelector = Some (js ''h2, h3''), excludeSelectors = [],
      skipAttribute = Some (js ''data-toc-skip''), skipClass = Some (js ''toc-skip''),
      skipContainerAttribute = Some (js ''data-toc-skip-container''),
      excludeTextPatterns = []\<rparr>"

text \<open>The manager as its constructor leaves it on that page (a mobile viewport).\<close>

definition sampleManager :: manager where
  "sampleManager =
     \<lparr>tocItems = [], currentActiveIndex = - 1, articleContent = True, tocNav = True,
      tocContainer = True, isScrolling = False, isMobile = True, lastScrollTimestamp = 0,
      elements = sampleDocument, nodeCount = 4, links = [], collapsed = False,
      tocHeader = True, headerToggle = False, touchStartX = 0, touchStartY = 0, isTap = True,
      timers = [], scrollEndListeners = [], scrollRequests = []\<rparr>"

definition loadedManager :: manager where
  "loadedManager = generateTOC sampleOptions sampleBrowser sampleManager"


text \<open>The same page in a desktop viewport, at a given time.\<close>

definition desktopManager :: manager where
  "desktopManager = loadedManager\<lparr>isMobile := False, headerToggle := False\<rparr>"

definition desktopBrowser :: "int \<Rightarrow> browser" where
  "desktopBrowser t = sampleBrowser\<lparr>now := t, innerWidth := 1280\<rparr>"

text \<open>The desktop page after a click on its first link at time 1000.\<close>

definition scrollingManager :: manager where
  "scrollingManager = step (desktopBrowser 1000) (NavClick 0) desktopManager"

text \<open>
  The desktop browser at a given time and scroll position; the headings stand at 200, 400,
  560 and 1200 pixels from the top of the document.
\<close>

definition desktopAt :: "int \<Rightarrow> real \<Rightarrow> browser" where
  "desktopAt t y =
     sampleBrowser\<lparr>now := t, innerWidth := 1280, pageYOffset := y, documentScrollTop := y,
       boundingTop := (\<lambda>n. (if n = 0 then 200 else if n = 1 then 400 else if n = 2 then 560 else 1200) - y)\<rparr>"

text \<open>
  Three clicks on the desktop page. The first link is clicked at time 1000; its scroll
  ends at 1500. The second link is clicked at 3900. At 4000 the safety timer of the first
  scroll comes due. The third link is clicked at 4100, before the second scroll has ended.
  Every timer due by then has run.
\<close>

definition secondScroll :: "(browser \<times> event) list" where
  "secondScroll =
     [(desktopAt 1000 500, NavClick 0),
      (desktopAt 1240 290, TimerDue 1),
      (desktopAt 1500 80, ScrollEndEvent),
      (desktopAt 3900 80, NavClick 1)]"

definition staleTimer :: "(browser \<times> event) list" where
  "staleTimer = [(desktopAt 4000 150, TimerDue 0)]"

definition thirdClick :: "(browser \<times> event) list" where
  "thirdClick = [(desktopAt 4100 300, NavClick 2)]"

lemmas sample_defs =
  sampleManager_def sampleBrowser_def sampleOptions_def sampleDocument_def asciiLower_def js_def

lemma loadedManager_items:
  "tocItems loadedManager =
     [\<lparr>itemId = js ''h2-0-getting-started'', itemText = js ''Getting started'', element = 0\<rparr>,
      \<lparr>itemId = js ''usage'', itemText = js ''Usage'', element = 2\<rparr>,
      \<lparr>itemId = js ''faq'', itemText = js ''FAQ'', element = 3\<rparr>]"
  by (simp add: loadedManager_def generateTOC_def sample_defs selectorOrDefault_def strOr_def
      shouldExcludeHeading_def hasAttribute_def closestHasAttribute_def generateHeadingId_def
      showNat.simps isWordChar_def isWhiteSpace_def createTocLink_def headingCallback_def setId_def
      setupMobileInteraction_def setupHeaderToggle_def Let_def)

lemma loadedManager_links:
  "links loadedManager =
     [\<lparr>href = js ''#h2-0-getting-started'', dataTocIndex = 0, active = False\<rparr>,
      \<lparr>href = js ''#usage'', dataTocIndex = 1, active = False\<rparr>,
      \<lparr>href = js ''#faq'', dataTocIndex = 2, active = False\<rparr>]"
  by (simp add: loadedManager_def generateTOC_def sample_defs selectorOrDefault_def strOr_def
      shouldExcludeHeading_def hasAttribute_def closestHasAttribute_def generateHeadingId_def
      showNat.simps isWordChar_def isWhiteSpace_def createTocLink_def headingCallback_def setId_def
      setupMobileInteraction_def setupHeaderToggle_def Let_def)

lemma loadedManager_flags:
  "\<not> isScrolling loadedManager \<and> isMobile loadedManager \<and> tocNav loadedManager
   \<and> tocContainer loadedManager \<and> currentActiveIndex loadedManager = - 1
   \<and> \<not> collapsed loadedManager \<and> headerToggle loadedManager \<and> nodeCount loadedManager = 4
   \<and> lastScrollTimestamp loadedManager = 0 \<and> timers loadedManager = []
   \<and> tocHeader loadedManager \<and> articleContent loadedManager
   \<and> scrollRequests loadedManager = [] \<and> scrollEndListeners loadedManager = []"
  by (simp add: loadedManager_def generateTOC_def sample_defs selectorOrDefault_def strOr_def
      shouldExcludeHeading_def hasAttribute_def closestHasAttribute_def generateHeadingId_def
      showNat.simps isWordChar_def isWhiteSpace_def createTocLink_def headingCallback_def setId_def
      setupMobileInteraction_def setupHeaderToggle_def Let_def)

lemma loadedManager_ids:
  "map (\<lambda>n. elemId (elements loadedManager n)) [0, 1, 2, 3]
     = [js ''h2-0-getting-started'', js ''notes'', js ''usage'', js ''faq'']"
  by (simp add: loadedManager_def generateTOC_def sample_defs selectorOrDefault_def strOr_def
      shouldExcludeHeading_def hasAttribute_def closestHasAttribute_def generateHeadingId_def
      showNat.simps isWordChar_def isWhiteSpace_def createTocLink_def headingCallback_def setId_def
      setupMobileInteraction_def setupHeaderToggle_def Let_def)

section \<open>Reading time\<close>

text \<open>
  The regular expressions of \<open>calculateReadingTime\<close>, each as a matcher: applied to the
  text that starts at some position, it returns what follows the match when the
  expression matches at that position. \<open>.\<close> matches any code unit but a line terminator;
  a lazy quantifier stops at the first place where the rest of the expression matches.
\<close>

definition isLineTerminator :: "nat \<Rightarrow> bool" where
  "isLineTerminator c = (c = 10 \<or> c = 13 \<or> c = 8232 \<or> c = 8233)"

text \<open>What follows the first occurrence of a code unit, or of a sequence.\<close>

fun afterFirst :: "nat \<Rightarrow> jsstring \<Rightarrow> jsstring option" where
  "afterFirst ch [] = None"
| "afterFirst ch (c # cs) = (if c = ch then Some cs else afterFirst ch cs)"

fun afterFirstSeq :: "jsstring \<Rightarrow> jsstring \<Rightarrow> jsstring option" where
  "afterFirstSeq pat [] = None"
| "afterFirstSeq pat (c # cs) =
     (if take (length pat) (c # cs) = pat then Some (drop (length pat) (c # cs))
      else afterFirstSeq pat cs)"

text \<open>\<open>.*?\<close> followed by a fixed sequence: the first occurrence on the same line.\<close>

fun lineAfter :: "jsstring \<Rightarrow> jsstring \<Rightarrow> jsstring option" where
  "lineAfter pat [] = None"
| "lineAfter pat (c # cs) =
     (if take (length pat) (c # cs) = pat then Some (drop (length pat) (c # cs))
      else if isLineTerminator c then None
      else lineAfter pat cs)"

definition matchTag :: "jsstring \<Rightarrow> jsstring option" where
  "matchTag s = (case s of [] \<Rightarrow> None | c # cs \<Rightarrow> if c = 60 then afterFirst 62 cs else None)"

definition matchFence :: "jsstring \<Rightarrow> jsstring option" where
  "matchFence s =
     (if take 3 s = js ''```'' then afterFirstSeq (js ''```'') (drop 3 s) else None)"

definition matchInlineCode :: "jsstring \<Rightarrow> jsstring option" where
  "matchInlineCode s = (case s of [] \<Rightarrow> None | c # cs \<Rightarrow> if c = 96 then afterFirst 96 cs else None)"

definition matchLink :: "jsstring \<Rightarrow> jsstring option" where
  "matchLink s =
     (case s of [] \<Rightarrow> None
      | c # cs \<Rightarrow>
          if c = 91 then
            (case lineAfter (js '']('') cs of None \<Rightarrow> None | Some r \<Rightarrow> lineAfter (js '')'') r)
          else None)"

definition matchImage :: "jsstring \<Rightarrow> jsstring option" where
  "matchImage s = (case s of [] \<Rightarrow> None | c # cs \<Rightarrow> if c = 33 then matchLink cs else None)"

text \<open>
  \<open>s.replace(re, rep)\<close> and \<open>s.match(re).length\<close> for a global expression whose
  matches are never empty: the text is scanned from the left, and after a match the scan
  goes on behind it.
\<close>

function replaceAll :: "(jsstring \<Rightarrow> jsstring option) \<Rightarrow> jsstring \<Rightarrow> jsstring \<Rightarrow> jsstring" where
  "replaceAll matcher rep [] = []"
| "replaceAll matcher rep (c # cs) =
     (case matcher (c # cs) of
        None \<Rightarrow> c # replaceAll matcher rep cs
      | Some rest \<Rightarrow>
          if length rest < length (c # cs) then rep @ replaceAll matcher rep rest
          else c # replaceAll matcher rep cs)"
  by pat_completeness auto
termination
  by (relation "measure (\<lambda>(matcher, rep, s). length s)") auto

function countAll :: "(jsstring \<Rightarrow> jsstring option) \<Rightarrow> jsstring \<Rightarrow> nat" where
  "countAll matcher [] = 0"
| "countAll matcher (c # cs) =
     (case matcher (c # cs) of
        None \<Rightarrow> countAll matcher cs
      | Some rest \<Rightarrow>
          if length rest < length (c # cs) then Suc (countAll matcher rest)
          else countAll matcher cs)"
  by pat_completeness auto
termination
  by (relation "measure (\<lambda>(matcher, s). length s)") auto

text \<open>\<open>s.split(/\\s+/)\<close>.\<close>

function splitWhiteSpace :: "jsstring \<Rightarrow> jsstring list" where
  "splitWhiteSpace s =
     (let w = takeWhile (\<lambda>c. \<not> isWhiteSpace c) s;
          r = dropWhile (\<lambda>c. \<not> isWhiteSpace c) s
      in if r = [] then [w] else w # splitWhiteSpace (dropWhile isWhiteSpace r))"
  by pat_completeness auto
termination
proof (relation "measure length")
  show "wf (measure length)" by simp
next
  fix s :: jsstring and w r
  assume r: "r = dropWhile (\<lambda>c. \<not> isWhiteSpace c) s" and ne: "r \<noteq> []"
  then have "isWhiteSpace (hd r)" using hd_dropWhile [of "\<lambda>c. \<not> isWhiteSpace c" s] by auto
  then have "length (dropWhile isWhiteSpace r) < length r"
    using ne by (cases r) (auto simp: length_dropWhile_le le_imp_less_Suc)
  moreover have "length r \<le> length s" using r by (simp add: length_dropWhile_le)
  ultimately show "(dropWhile isWhiteSpace r, s) \<in> measure length" by simp
qed

declare splitWhiteSpace.simps [simp del]

record readingTime =
  text' :: jsstring
  minutes :: int
  words :: nat

definition cleanText :: "jsstring \<Rightarrow> jsstring" where
  "cleanText content =
     trim (replaceAll matchLink (js ''$1'')
       (replaceAll matchImage []
         (replaceAll matchInlineCode []
           (replaceAll matchFence []
             (replaceAll matchTag [] content)))))"

definition calculateReadingTime :: "jsstring \<Rightarrow> readingTime" where
  "calculateReadingTime content =
     (let wordsPerMinute = 200;
          imageReadingTime = 12;
          codeReadingTime = 25;
          wordCount = length (filter (\<lambda>word. length word > 0) (splitWhiteSpace (cleanText content)));
          images = countAll matchImage content;
          codeBlocks = countAll matchFence content;
          totalMinutes = \<lceil>real wordCount / wordsPerMinute
                            + (real images * imageReadingTime) / 60
                            + (real codeBlocks * codeReadingTime) / 60\<rceil>
      in \<lparr>text' = showNat (nat totalMinutes) @ js '' minute''
                    @ (if totalMinutes \<noteq> 1 then js ''s'' else []) @ js '' read'',
          minutes = totalMinutes,
          words = wordCount\<rparr>)"

text \<open>Two sample contents.\<close>

definition sampleArticle :: jsstring where
  "sampleArticle =
     js ''Hello <b>world</b> see ![pic](a.png) and [link](http://x) `code` done''"

definition galleryArticle :: jsstring where
  "galleryArticle =
     js ''Gallery ![a](1.png) ![b](2.png) ![c](3.png) ![d](4.png) ![e](5.png) ```'' @ [10]
       @ js ''let x = 1;'' @ [10] @ js ''``` end''"

section \<open>The command line script\<close>

text \<open>
  The script \<open>cli.sh\<close> runs under \<open>set -Ee\<close> with a trap on \<open>EXIT\<close>. Its functions
  \<open>init\<close> and \<open>update\<close> are \<open>cli_init\<close> and \<open>cli_update\<close> here. What the commands
  it invokes answer is given by the environment: the exit status of every external command
  (by its argument words), the two file tests, what \<open>mktemp\<close>, \<open>git rev-parse\<close>, \<open>date\<close> and
  \<open>basename\<close> print, and whether a redirection into a file succeeds.
\<close>

record env =
  scriptName :: string
  projectRoot :: string
  mktemp :: string
  status :: "string list \<Rightarrow> nat"
  isDirectory :: "string \<Rightarrow> bool"
  isRegularFile :: "string \<Rightarrow> bool"
  revParse :: string
  date :: string
  basename :: "string \<Rightarrow> string"
  writable :: "string \<Rightarrow> bool"
  lineno :: string

text \<open>
  The state of a run: the external commands run so far with their status, the lines
  printed, the files written by redirection, whether the temporary directory exists, and
  the two global variables the functions assign.
\<close>

record shell =
  invoked :: "(string list \<times> nat) list"
  out :: "string list"
  written :: "(string \<times> string) list"
  tempPresent :: bool
  versionBranch :: string
  versionSha :: string

text \<open>
  A function either returns a status, or the shell exits with a status (\<open>exit\<close>, or a
  failing command where \<open>errexit\<close> is in force), or it never returns.
\<close>

datatype flow = Returns nat | Exits nat | Hangs

type_synonym sh = "shell \<Rightarrow> flow \<times> shell"

definition andThen :: "sh \<Rightarrow> sh \<Rightarrow> sh" where
  "andThen f g st = (case f st of (Returns _, st') \<Rightarrow> g st' | other \<Rightarrow> other)"

text \<open>
  An external command: with \<open>errexit\<close> in force a non-zero status ends the shell. The flag
  is false where bash ignores \<open>-e\<close>: in the condition of an \<open>if\<close>, under \<open>!\<close>, on the left
  of \<open>||\<close>, and in every function called from there.
\<close>

definition command :: "env \<Rightarrow> bool \<Rightarrow> string list \<Rightarrow> sh" where
  "command e errexit argv st =
     (let st1 = st\<lparr>invoked := invoked st @ [(argv, status e argv)]\<rparr>
      in if status e argv \<noteq> 0 \<and> errexit then (Exits (status e argv), st1)
         else (Returns (status e argv), st1))"

definition print_info :: "string \<Rightarrow> sh" where
  "print_info msg st = (Returns 0, st\<lparr>out := out st @ ['' [INFO] '' @ msg]\<rparr>)"

definition print_error :: "string \<Rightarrow> sh" where
  "print_error msg st = (Exits 1, st\<lparr>out := out st @ ['' [ERROR] '' @ msg]\<rparr>)"

definition GITHUB_WALLE_REPO :: string where
  "GITHUB_WALLE_REPO = ''https://github.com/FabrizioCafolla/walle-design-system''"

definition download_project :: "env \<Rightarrow> bool \<Rightarrow> string \<Rightarrow> string \<Rightarrow> sh" where
  "download_project e errexit dir_path version st =
     (let source_version = (if version = [] then ''main'' else version) in
      if dir_path = [] then print_error ''Directory path is required for downloading the project.'' st
      else
        (case command e errexit [''git'', ''clone'', ''-b'', source_version, GITHUB_WALLE_REPO, dir_path] st of
          (Returns s, st1) \<Rightarrow>
            if s \<noteq> 0
            then print_error (''Failed to download the project from '' @ GITHUB_WALLE_REPO @ ''.'') st1
            else
              andThen (command e errexit [''cd'', dir_path])
                (andThen (command e errexit [''git'', ''rev-parse'', ''--short'', ''HEAD''])
                  (andThen (\<lambda>s. (Returns 0, s\<lparr>versionSha := revParse e\<rparr>))
                    (andThen (command e errexit [''cd'', ''-''])
                      (\<lambda>s. (Returns 0, s\<lparr>out := out s @ [projectRoot e]\<rparr>))))) st1
        | other \<Rightarrow> other))"

definition quote :: string where
  "quote = [CHR 0x22]"

definition apostrophe :: string where
  "apostrophe = [CHR 0x27]"

definition newline :: string where
  "newline = [CHR 0x0A]"

text \<open>The text the \<open>echo\<close> of \<open>create_config_file\<close> prints.\<close>

definition configText :: "string \<Rightarrow> string \<Rightarrow> string \<Rightarrow> string" where
  "configText project_name source_version timestamp =
     ''{'' @ newline
     @ ''  '' @ quote @ ''name'' @ quote @ '': '' @ quote @ project_name @ quote @ '','' @ newline
     @ ''  '' @ quote @ ''walleVersion'' @ quote @ '': '' @ quote @ source_version @ quote @ '','' @ newline
     @ ''  '' @ quote @ ''updatedAt'' @ quote @ '': '' @ quote @ timestamp @ quote @ newline
     @ ''}'' @ newline"

text \<open>
  The third argument is \<open>None\<close> when the caller passes none (\<open>${3-main}\<close> then gives
  \<open>main\<close>); the second defaults to \<open>.\<close> when empty.
\<close>

definition create_config_file :: "env \<Rightarrow> string \<Rightarrow> string \<Rightarrow> string option \<Rightarrow> sh" where
  "create_config_file e project_name dir version st =
     (let config_filepath = (if dir = [] then ''.'' else dir) @ ''/.walle.config.json'';
          source_version = (case version of None \<Rightarrow> ''main'' | Some v \<Rightarrow> v)
      in if writable e config_filepath
         then print_info (''Configuration file updated '' @ config_filepath)
                (st\<lparr>written := written st
                        @ [(config_filepath, configText project_name source_version (date e))]\<rparr>)
         else print_error (''Failed to create configuration file: '' @ config_filepath) st)"

definition sync_files :: "env \<Rightarrow> bool \<Rightarrow> string \<Rightarrow> string \<Rightarrow> sh" where
  "sync_files e errexit source_path target_path st =
     (if source_path = [] \<or> target_path = []
      then print_error ''Source and target paths are required for synchronization.'' st
      else if isDirectory e source_path then
        (case (if isDirectory e target_path then command e errexit [''rm'', ''-rf'', target_path] st
              else (Returns 0, st)) of
          (Returns s, st1) \<Rightarrow>
            if s \<noteq> 0
            then print_error (''Failed to create parent directory for: '' @ target_path) st1
            else
              andThen (command e errexit [''cp'', ''-r'', source_path, target_path])
                (print_info (''Synchronized from '' @ source_path @ '' to '' @ target_path @ ''.'')) st1
        | other \<Rightarrow> other)
      else if isRegularFile e source_path then
        andThen (command e False [''rm'', ''-f'', target_path])
          (andThen (command e errexit [''cp'', source_path, target_path])
            (print_info (''Synchronized from '' @ source_path @ '' to '' @ target_path @ ''.''))) st
      else print_error (''Error synchronizing files from '' @ source_path @ '' to '' @ target_path @ ''.'') st)"

definition walleFiles :: "(string \<times> string) list" where
  "walleFiles =
     [(''/.devcontainer/@walle'', ''/.devcontainer/@walle''),
      (''/.vscode'', ''/.vscode''),
      (''/lib/infrastructure/@walle'', ''/lib/infrastructure/@walle''),
      (''/lib/scripts/@walle'', ''/lib/scripts/@walle''),
      (''/lib/website/src/@walle'', ''/lib/website/src/@walle''),
      (''/.github/workflows/actions'', ''/.github/workflows/actions''),
      (''/walle.justfile'', ''/walle.justfile''),
      (''/LICENSE'', ''/.devcontainer/@walle/LICENSE''),
      (''/LICENSE'', ''/lib/infrastructure/@walle/LICENSE''),
      (''/LICENSE'', ''/lib/scripts/@walle/LICENSE''),
      (''/LICENSE'', ''/lib/website/src/@walle/LICENSE''),
      (''/LICENSE'', ''/.github/workflows/actions/@walle/LICENSE'')]"

fun sequence :: "sh list \<Rightarrow> sh" where
  "sequence [] st = (Returns 0, st)"
| "sequence [f] st = f st"
| "sequence (f # fs) st = andThen f (sequence fs) st"

definition sync_walle_files :: "env \<Rightarrow> bool \<Rightarrow> string \<Rightarrow> string \<Rightarrow> sh" where
  "sync_walle_files e errexit temp_dir project_name =
     sequence (map (\<lambda>(s, t). sync_files e errexit (temp_dir @ s) (project_name @ t)) walleFiles)"


text \<open>The option words, and the usage texts (abbreviated to their first line).\<close>

definition helpOption :: "string \<Rightarrow> bool" where
  "helpOption a = (a = ''-h'' \<or> a = ''--help'')"

definition nameOption :: "string \<Rightarrow> bool" where
  "nameOption a = (a = ''-n'' \<or> a = ''--project-name'')"

definition dirOption :: "string \<Rightarrow> bool" where
  "dirOption a = (a = ''-d'' \<or> a = ''--dir-path'')"

definition versionOption :: "string \<Rightarrow> bool" where
  "versionOption a = (a = ''-w'' \<or> a = ''--walle-version'')"

definition pathOption :: "string \<Rightarrow> bool" where
  "pathOption a = (a = ''-p'' \<or> a = ''--project-path'')"

definition usage_init :: "shell \<Rightarrow> shell" where
  "usage_init st = st\<lparr>out := out st @ [''Usage: cli.sh [options]'']\<rparr>"

definition usage_update :: "shell \<Rightarrow> shell" where
  "usage_update st = st\<lparr>out := out st @ [''Usage: cli.sh update [options]'']\<rparr>"

definition unknownCommand :: "string \<Rightarrow> sh" where
  "unknownCommand a = print_error (''Unknown command: '' @ a)"

text \<open>
  The option loop of \<open>init\<close>. \<open>shift 2\<close> with a single word left fails without
  shifting, so with \<open>errexit\<close> ignored the loop never ends.
\<close>

fun initOptions :: "bool \<Rightarrow> string list \<Rightarrow> string \<times> string \<Rightarrow> shell \<Rightarrow> (flow \<times> shell) + (string \<times> string)" where
  "initOptions errexit [] opts st = Inr opts"
| "initOptions errexit [a] opts st =
     (if nameOption a \<or> dirOption a then Inl (if errexit then Exits 1 else Hangs, st)
      else if helpOption a then Inl (Exits 0, usage_init st)
      else Inl (unknownCommand a (usage_init st)))"
| "initOptions errexit (a # v # rest) opts st =
     (if nameOption a then initOptions errexit rest (v, snd opts) st
      else if dirOption a then initOptions errexit rest (fst opts, v) st
      else if helpOption a then Inl (Exits 0, usage_init st)
      else Inl (unknownCommand a (usage_init st)))"

definition cli_init :: "env \<Rightarrow> bool \<Rightarrow> string list \<Rightarrow> sh" where
  "cli_init e errexit args st =
     (case initOptions errexit args ([], projectRoot e) st of
        Inl stop \<Rightarrow> stop
      | Inr (PROJECT_NAME, DIR_PATH) \<Rightarrow>
          if PROJECT_NAME = [] then print_error ''Project name is required for initialization.'' st
          else
            sequence
              [if \<not> isDirectory e DIR_PATH then command e errexit [''mkdir'', ''-p'', DIR_PATH]
               else (\<lambda>s. (Returns 0, s)),
               print_info (''Start initialize project  to version in '' @ DIR_PATH @ '' directory.''),
               download_project e errexit (DIR_PATH @ ''/'' @ PROJECT_NAME) [],
               create_config_file e PROJECT_NAME (DIR_PATH @ ''/'' @ PROJECT_NAME) None,
               print_info (''Project '' @ PROJECT_NAME @ '' initialized successfully in '' @ DIR_PATH
                             @ '' directory.'')] st)"

fun updateOptions :: "bool \<Rightarrow> string list \<Rightarrow> string \<times> string \<Rightarrow> shell \<Rightarrow> (flow \<times> shell) + (string \<times> string)" where
  "updateOptions errexit [] opts st = Inr opts"
| "updateOptions errexit [a] opts st =
     (if versionOption a \<or> pathOption a then Inl (if errexit then Exits 1 else Hangs, st)
      else if helpOption a then Inl (Exits 0, usage_init st)
      else Inl (unknownCommand a (usage_update st)))"
| "updateOptions errexit (a # v # rest) opts st =
     (if versionOption a then updateOptions errexit rest (v, snd opts) st
      else if pathOption a then updateOptions errexit rest (fst opts, v) st
      else if helpOption a then Inl (Exits 0, usage_init st)
      else Inl (unknownCommand a (usage_update st)))"

definition cli_update :: "env \<Rightarrow> bool \<Rightarrow> string list \<Rightarrow> sh" where
  "cli_update e errexit args st =
     (case updateOptions errexit args (versionBranch st, projectRoot e) st of
        Inl stop \<Rightarrow> stop
      | Inr (branch, PROJECT_PATH) \<Rightarrow>
          let st1 = st\<lparr>versionBranch := branch\<rparr> in
          if branch = [] then print_error ''Source version is required for update.'' st1
          else if \<not> isDirectory e PROJECT_PATH
          then print_error (''Project path does not exist: '' @ PROJECT_PATH) st1
          else
            sequence
              [print_info (''Start update project in '' @ PROJECT_PATH @ '' to version '' @ branch),
               download_project e errexit (mktemp e) branch,
               sync_walle_files e errexit (mktemp e) PROJECT_PATH,
               (\<lambda>s. create_config_file e (basename e PROJECT_PATH) PROJECT_PATH (Some (versionSha s)) s),
               print_info ''Project updated successfully''] st1)"

text \<open>
  The loop of \<open>main\<close> takes the words \<open>init\<close> and \<open>update\<close> wherever they stand (the
  last one wins) and passes the other words on. On \<open>-h\<close> it calls \<open>usage\<close>, a function
  the script does not define: status 127, with \<open>errexit\<close> in force.
\<close>

fun mainOptions :: "string list \<Rightarrow> string option \<times> string list \<Rightarrow> (string option \<times> string list) option" where
  "mainOptions [] chosen = Some chosen"
| "mainOptions (a # rest) chosen =
     (if a = ''init'' \<or> a = ''update'' then mainOptions rest (Some a, snd chosen)
      else if helpOption a then None
      else mainOptions rest (fst chosen, snd chosen @ [a]))"

text \<open>
  The chosen function runs under \<open>if !\<close>, so \<open>errexit\<close> is ignored in it. Without a
  command the remaining words themselves are run as a command; its status is the
  environment's.
\<close>

definition main :: "env \<Rightarrow> string list \<Rightarrow> sh" where
  "main e argv st =
     (case mainOptions argv (None, []) of
        None \<Rightarrow> (Exits 127, st)
      | Some (cmd, args) \<Rightarrow>
          (case command e False [''cd'', projectRoot e] st of
            (Returns c, st0) \<Rightarrow>
              if c \<noteq> 0
              then print_error (''Failed to change directory to '' @ projectRoot e) st0
              else
                (case (case cmd of
                         None \<Rightarrow> (if args = [] then (Returns 0, st0) else command e False args st0)
                       | Some f \<Rightarrow> (if f = ''init'' then cli_init e False args st0
                                    else cli_update e False args st0)) of
                   (Returns s, st1) \<Rightarrow>
                     if s \<noteq> 0
                     then print_error (''Command '' @ apostrophe @ (case cmd of None \<Rightarrow> [] | Some f \<Rightarrow> f)
                                         @ apostrophe @ '' failed.'') st1
                     else
                       (case command e True [''rm'', ''-rf'', mktemp e] st1 of
                          (Returns _, st2) \<Rightarrow> (Returns 0, st2\<lparr>tempPresent := False\<rparr>)
                        | other \<Rightarrow> other)
                 | other \<Rightarrow> other)
          | other \<Rightarrow> other))"

text \<open>The function \<open>catch\<close> of the \<open>EXIT\<close> trap, given the status the shell exits with.\<close>

definition catch :: "env \<Rightarrow> nat \<Rightarrow> shell \<Rightarrow> shell" where
  "catch e code st =
     (let st1 = (if code \<noteq> 0
                 then st\<lparr>out := out st @ [''[ERROR] in '' @ scriptName e @ '' at line '' @ lineno e
                                              @ '' (error code '' @ map char_of (showNat code) @ '')'']\<rparr>
                 else st)
      in if tempPresent st1
         then (case command e True [''rm'', ''-rf'', mktemp e] st1 of
                 (Returns _, st2) \<Rightarrow> st2\<lparr>tempPresent := False\<rparr>
               | (_, st2) \<Rightarrow> st2)
         else st1)"

definition initialShell :: shell where
  "initialShell = \<lparr>invoked = [], out = [], written = [], tempPresent = False, versionBranch = ''main'', versionSha = []\<rparr>"

text \<open>
  A run of the script with the given arguments: the temporary directory is made, \<open>main\<close>
  runs, and when the shell exits the trap runs. The result is the exit status (\<open>None\<close>
  when the script never exits) and the final state.
\<close>

definition script :: "env \<Rightarrow> string list \<Rightarrow> nat option \<times> shell" where
  "script e argv =
     (let started = (case command e True [''mktemp'', ''-d''] initialShell of
                       (Returns _, st) \<Rightarrow> main e argv (st\<lparr>tempPresent := True\<rparr>)
                     | other \<Rightarrow> other)
      in case started of
           (Returns s, st) \<Rightarrow> (Some s, catch e s st)
         | (Exits s, st) \<Rightarrow> (Some s, catch e s st)
         | (Hangs, st) \<Rightarrow> (None, st))"

text \<open>Whether a line contains a given text.\<close>

fun hasInfix :: "string \<Rightarrow> string \<Rightarrow> bool" where
  "hasInfix pat [] = (pat = [])"
| "hasInfix pat (c # cs) = (take (length pat) (c # cs) = pat \<or> hasInfix pat cs)"


text \<open>
  What it is for a text to be a JSON object whose members are strings, read off the JSON
  grammar: white space, braces, members \<open>"key": "value"\<close> separated by commas. A string
  ends at the first unescaped quotation mark and holds no control character; the two
  character escapes are decoded (\<open>\\u\<close> escapes are not read). The result lists the
  members in order.
\<close>

definition jsonSpace :: "char \<Rightarrow> bool" where
  "jsonSpace c = (c = CHR '' '' \<or> c = CHR 0x0A \<or> c = CHR 0x0D \<or> c = CHR 0x09)"

definition unescape :: "char \<Rightarrow> char option" where
  "unescape c =
     (if c = CHR 0x22 \<or> c = CHR 0x5C \<or> c = CHR ''/'' then Some c
      else if c = CHR ''b'' then Some (CHR 0x08)
      else if c = CHR ''f'' then Some (CHR 0x0C)
      else if c = CHR ''n'' then Some (CHR 0x0A)
      else if c = CHR ''r'' then Some (CHR 0x0D)
      else if c = CHR ''t'' then Some (CHR 0x09)
      else None)"

fun readString :: "string \<Rightarrow> string \<Rightarrow> (string \<times> string) option" where
  "readString acc [] = None"
| "readString acc [c] = (if c = CHR 0x22 then Some (rev acc, []) else None)"
| "readString acc (c # d # cs) =
     (if c = CHR 0x22 then Some (rev acc, d # cs)
      else if c = CHR 0x5C then
        (case unescape d of None \<Rightarrow> None | Some u \<Rightarrow> readString (u # acc) cs)
      else if (of_char c :: nat) < 32 then None
      else readString (c # acc) (d # cs))"

definition readQuoted :: "string \<Rightarrow> (string \<times> string) option" where
  "readQuoted s =
     (case dropWhile jsonSpace s of
        [] \<Rightarrow> None
      | c # cs \<Rightarrow> if c = CHR 0x22 then readString [] cs else None)"

text \<open>The members after the opening brace, up to the closing one; the first argument bounds their number.\<close>

primrec readMembers :: "nat \<Rightarrow> string \<Rightarrow> ((string \<times> string) list \<times> string) option" where
  "readMembers 0 s = None"
| "readMembers (Suc n) s =
     (case readQuoted s of
        None \<Rightarrow> None
      | Some (k, r1) \<Rightarrow>
          (case dropWhile jsonSpace r1 of
             [] \<Rightarrow> None
           | c # r2 \<Rightarrow>
               if c \<noteq> CHR '':'' then None
               else
                 (case readQuoted r2 of
                    None \<Rightarrow> None
                  | Some (v, r3) \<Rightarrow>
                      (case dropWhile jsonSpace r3 of
                         [] \<Rightarrow> None
                       | d # r4 \<Rightarrow>
                           if d = CHR ''}'' then Some ([(k, v)], r4)
                           else if d = CHR '','' then
                             (case readMembers n r4 of
                                None \<Rightarrow> None
                              | Some (ms, r5) \<Rightarrow> Some ((k, v) # ms, r5))
                           else None))))"

definition jsonStringObject :: "string \<Rightarrow> (string \<times> string) list option" where
  "jsonStringObject s =
     (case dropWhile jsonSpace s of
        [] \<Rightarrow> None
      | c # cs \<Rightarrow>
          if c \<noteq> CHR ''{'' then None
          else
            (case dropWhile jsonSpace cs of
               [] \<Rightarrow> None
             | d # ds \<Rightarrow>
                 if d = CHR ''}'' then (if dropWhile jsonSpace ds = [] then Some [] else None)
                 else
                   (case readMembers (length cs) cs of
                      None \<Rightarrow> None
                    | Some (ms, r) \<Rightarrow> if dropWhile jsonSpace r = [] then Some ms else None)))"

subsection \<open>Sample runs\<close>

text \<open>
  An environment in which every command succeeds, the clone holds the files the update
  copies and the project directory \<open>/site\<close> exists with none of the target directories.
\<close>

definition calmEnv :: env where
  "calmEnv =
     \<lparr>scriptName = ''cli.sh'', projectRoot = ''/work'', mktemp = ''/t'',
      status = (\<lambda>argv. 0),
      isDirectory = (\<lambda>p. p = ''/work'' \<or> p = ''/site''
                       \<or> (take 3 p = ''/t/'' \<and> p \<noteq> ''/t/walle.justfile'' \<and> p \<noteq> ''/t/LICENSE'')),
      isRegularFile = (\<lambda>p. p = ''/t/walle.justfile'' \<or> p = ''/t/LICENSE''),
      revParse = ''a1b2c3d'', date = ''2025-01-31T10:20:30'',
      basename = (\<lambda>p. if p = ''/site'' then ''site'' else p),
      writable = (\<lambda>p. True), lineno = ''1''\<rparr>"

text \<open>The same, but the copy into the missing directory \<open>/site/.github/workflows\<close> fails.\<close>

definition failingCopy :: "string list" where
  "failingCopy =
     [''cp'', ''-r'', ''/t/.github/workflows/actions'', ''/site/.github/workflows/actions'']"

definition cpFailsEnv :: env where
  "cpFailsEnv = calmEnv\<lparr>status := (\<lambda>argv. if argv = failingCopy then 1 else 0)\<rparr>"

text \<open>A project name with a quotation mark in it.\<close>

definition quotedName :: string where
  "quotedName = ''my'' @ quote @ ''site''"

text \<open>Values that need no escaping in a JSON string.\<close>

definition plain :: "string \<Rightarrow> bool" where
  "plain s = list_all (\<lambda>c. c \<noteq> CHR 0x22 \<and> c \<noteq> CHR 0x5C \<and> \<not> (of_char c :: nat) < 32) s"

section \<open>Properties of the table of contents manager\<close>

subsection \<open>Scroll tracking\<close>

lemma activeLoop_last:
  "(activeLoop b st off items i a = a \<and> (\<forall>k<length items. \<not> boundingTop b (element (items ! k)) + st \<le> st + off))
   \<or> (\<exists>k<length items. activeLoop b st off items i a = i + int k
         \<and> boundingTop b (element (items ! k)) + st \<le> st + off
         \<and> (\<forall>j<length items. k < j \<longrightarrow> \<not> boundingTop b (element (items ! j)) + st \<le> st + off))"
proof (induction items arbitrary: i a)
  case Nil
  then show ?case by simp
next
  case (Cons item rest)
  let ?hit = "\<lambda>x. boundingTop b (element x) + st \<le> st + off"
  let ?a' = "if ?hit item then i else a"
  from Cons.IH [of "i + 1" ?a']
  show ?case
  proof (elim disjE conjE exE)
    assume same: "activeLoop b st off rest (i + 1) ?a' = ?a'"
      and none: "\<forall>k<length rest. \<not> ?hit (rest ! k)"
    show ?thesis
    proof (cases "?hit item")
      case True
      have "activeLoop b st off (item # rest) i a = i + int 0" using same True by simp
      moreover have "\<forall>j<length (item # rest). 0 < j \<longrightarrow> \<not> ?hit ((item # rest) ! j)"
        using none by (auto simp: nth_Cons split: nat.splits)
      ultimately show ?thesis using True by (intro disjI2 exI [of _ 0]) simp
    next
      case False
      have "activeLoop b st off (item # rest) i a = a" using same False by simp
      moreover have "\<forall>k<length (item # rest). \<not> ?hit ((item # rest) ! k)"
        using none False by (auto simp: nth_Cons split: nat.splits)
      ultimately show ?thesis by blast
    qed
  next
    fix k
    assume k: "k < length rest"
      and val: "activeLoop b st off rest (i + 1) ?a' = i + 1 + int k"
      and hit: "?hit (rest ! k)"
      and later: "\<forall>j<length rest. k < j \<longrightarrow> \<not> ?hit (rest ! j)"
    have "activeLoop b st off (item # rest) i a = i + int (Suc k)" using val by simp
    moreover have "?hit ((item # rest) ! Suc k)" using hit by simp
    moreover have "\<forall>j<length (item # rest). Suc k < j \<longrightarrow> \<not> ?hit ((item # rest) ! j)"
      using later by (auto simp: nth_Cons split: nat.splits)
    moreover have "Suc k < length (item # rest)" using k by simp
    ultimately show ?thesis by blast
  qed
qed

lemma parseInt_strOr:
  "(case parseInt (strOr v (js ''0'')) of None \<Rightarrow> (100::real) | Some sm \<Rightarrow> if sm > 0 then real_of_int sm else 100)
   = (case parseInt v of None \<Rightarrow> 100 | Some sm \<Rightarrow> if sm > 0 then real_of_int sm else 100)"
  by (cases "v = []") (simp_all add: strOr_def parseInt_def js_def isWhiteSpace_def isDigit_def digitsValue_def)



lemma updateActiveLinks_sync:
  "tocNav m \<Longrightarrow> linksInSync ((updateActiveLinks a m)\<lparr>currentActiveIndex := a\<rparr>)"
  by (simp add: linksInSync_def updateActiveLinks_def list_all_length nth_enumerate_eq)

text \<open>
  Claim C1. A scroll-tracking pass with a non-empty list and no programmatic scroll in
  flight leaves as active index the last item whose element top (its viewport top plus the
  scroll position) is at or above the line \<open>scrollTop + offset\<close>, and -1 when no item
  reaches the line. The offset is 120 off mobile; on mobile it is the first item's
  computed scroll-margin-top when \<open>parseInt\<close> reads a positive integer from it, and 100
  otherwise. When the anchors agreed with the index before the pass they agree after it,
  so the anchor marked \<open>active\<close> is the one at that index.
\<close>

theorem updateActiveTOC_marks_last_heading_reached:
  assumes "tocItems m \<noteq> []" and "\<not> isScrolling m"
  shows
    "((currentActiveIndex (updateActiveTOC b m) = - 1
        \<and> (\<forall>k<length (tocItems m).
              \<not> boundingTop b (element (tocItems m ! k)) + pageYOffset b
                  \<le> pageYOffset b + getDynamicOffset b m))
      \<or> (\<exists>k<length (tocItems m).
            currentActiveIndex (updateActiveTOC b m) = int k
            \<and> boundingTop b (element (tocItems m ! k)) + pageYOffset b
                  \<le> pageYOffset b + getDynamicOffset b m
            \<and> (\<forall>j<length (tocItems m). k < j \<longrightarrow>
                  \<not> boundingTop b (element (tocItems m ! j)) + pageYOffset b
                      \<le> pageYOffset b + getDynamicOffset b m)))
     \<and> (\<not> isMobile m \<longrightarrow> getDynamicOffset b m = 120)
     \<and> (isMobile m \<longrightarrow>
          getDynamicOffset b m =
            (case parseInt (computedScrollMarginTop b (element (tocItems m ! 0))) of
               None \<Rightarrow> 100
             | Some sm \<Rightarrow> if sm > 0 then real_of_int sm else 100))
     \<and> (tocNav m \<and> linksInSync m \<longrightarrow> linksInSync (updateActiveTOC b m))"
proof -
  let ?st = "pageYOffset b" and ?off = "getDynamicOffset b m"
  let ?r = "activeLoop b ?st ?off (tocItems m) 0 (- 1)"
  have idx: "currentActiveIndex (updateActiveTOC b m) = ?r"
    using assms by (simp add: updateActiveTOC_def Let_def)
  have last_hit:
    "(currentActiveIndex (updateActiveTOC b m) = - 1
        \<and> (\<forall>k<length (tocItems m). \<not> boundingTop b (element (tocItems m ! k)) + ?st \<le> ?st + ?off))
      \<or> (\<exists>k<length (tocItems m).
            currentActiveIndex (updateActiveTOC b m) = int k
            \<and> boundingTop b (element (tocItems m ! k)) + ?st \<le> ?st + ?off
            \<and> (\<forall>j<length (tocItems m). k < j \<longrightarrow>
                  \<not> boundingTop b (element (tocItems m ! j)) + ?st \<le> ?st + ?off))"
    using activeLoop_last [of b ?st ?off "tocItems m" 0 "- 1"] unfolding idx by simp
  have desktop: "\<not> isMobile m \<longrightarrow> ?off = 120"
    by (simp add: getDynamicOffset_def)
  obtain first rest where items: "tocItems m = first # rest"
    using assms(1) by (cases "tocItems m") auto
  have mobile: "isMobile m \<longrightarrow>
      ?off = (case parseInt (computedScrollMarginTop b (element (tocItems m ! 0))) of
                None \<Rightarrow> 100
              | Some sm \<Rightarrow> if sm > 0 then real_of_int sm else 100)"
    by (simp add: getDynamicOffset_def items parseInt_strOr)
  have sync: "tocNav m \<and> linksInSync m \<longrightarrow> linksInSync (updateActiveTOC b m)"
  proof (cases "?r = currentActiveIndex m")
    case True
    then have "updateActiveTOC b m = m" by (simp add: updateActiveTOC_def Let_def)
    then show ?thesis by simp
  next
    case False
    then have "updateActiveTOC b m = (updateActiveLinks ?r m)\<lparr>currentActiveIndex := ?r\<rparr>"
      using assms by (simp add: updateActiveTOC_def Let_def)
    then show ?thesis using updateActiveLinks_sync [of m ?r] by simp
  qed
  from last_hit desktop mobile sync show ?thesis by (intro conjI)
qed

theorem updateActiveTOC_marks_last_heading_reached_witness:
  "tocItems loadedManager \<noteq> [] \<and> \<not> isScrolling loadedManager
   \<and> currentActiveIndex (updateActiveTOC sampleBrowser loadedManager) = 1
   \<and> getDynamicOffset sampleBrowser loadedManager = 96
   \<and> linksInSync (updateActiveTOC sampleBrowser loadedManager)"
proof -
  have items: "tocItems loadedManager \<noteq> []" and idle: "\<not> isScrolling loadedManager"
    by (simp_all add: loadedManager_items loadedManager_flags)
  have offset: "getDynamicOffset sampleBrowser loadedManager = 96"
    by (simp add: getDynamicOffset_def loadedManager_items loadedManager_flags sampleBrowser_def
        strOr_def parseInt_def js_def isWhiteSpace_def isDigit_def digitsValue_def)
  have sync: "linksInSync loadedManager"
    by (simp add: linksInSync_def loadedManager_links loadedManager_flags enumerate_eq_zip upt_rec)
  note pass = updateActiveTOC_marks_last_heading_reached [OF items idle, of sampleBrowser]
  have after: "linksInSync (updateActiveTOC sampleBrowser loadedManager)"
    using pass [THEN conjunct2, THEN conjunct2, THEN conjunct2] sync loadedManager_flags by simp
  have index: "currentActiveIndex (updateActiveTOC sampleBrowser loadedManager) = 1"
    by (simp add: updateActiveTOC_def offset loadedManager_items loadedManager_flags Let_def)
       (simp add: sampleBrowser_def)
  show ?thesis using items idle index offset after by simp
qed

subsection \<open>Building the list\<close>

lemma headingCallback_elements:
  "map element (tocItems (fst (headingCallback opts b h i st)))
     = map element (tocItems (fst st))
         @ (if shouldExcludeHeading opts (elements (fst st) h) then [] else [h])"
  by (simp add: headingCallback_def Let_def)

lemma headingCallback_other:
  "n \<noteq> h \<Longrightarrow> elements (fst (headingCallback opts b h i st)) n = elements (fst st) n"
  by (simp add: headingCallback_def Let_def)

lemma headingCallback_frame:
  "fst (headingCallback opts b h i st)
     = (fst st)\<lparr>tocItems := tocItems (fst (headingCallback opts b h i st)),
                elements := elements (fst (headingCallback opts b h i st))\<rparr>"
  by (simp add: headingCallback_def Let_def)

lemma headingLoop_frame:
  "fst (headingLoop opts b hs i st)
     = (fst st)\<lparr>tocItems := tocItems (fst (headingLoop opts b hs i st)),
                elements := elements (fst (headingLoop opts b hs i st))\<rparr>"
proof (induction hs arbitrary: i st)
  case Nil
  then show ?case by simp
next
  case (Cons h rest)
  let ?st = "headingCallback opts b h i st"
  have "fst (headingLoop opts b (h # rest) i st)
      = (fst ?st)\<lparr>tocItems := tocItems (fst (headingLoop opts b (h # rest) i st)),
                   elements := elements (fst (headingLoop opts b (h # rest) i st))\<rparr>"
    using Cons.IH [of "i + 1" ?st] by simp
  also have "\<dots> = (fst st)\<lparr>tocItems := tocItems (fst (headingLoop opts b (h # rest) i st)),
                   elements := elements (fst (headingLoop opts b (h # rest) i st))\<rparr>"
    by (subst headingCallback_frame) simp
  finally show ?case .
qed

lemma headingLoop_items:
  "distinct hs \<Longrightarrow>
     map element (tocItems (fst (headingLoop opts b hs i st)))
       = map element (tocItems (fst st))
           @ filter (\<lambda>h. \<not> shouldExcludeHeading opts (elements (fst st) h)) hs"
proof (induction hs arbitrary: i st)
  case Nil
  then show ?case by simp
next
  case (Cons h rest)
  then have notin: "h \<notin> set rest" and dist: "distinct rest" by simp_all
  let ?st = "headingCallback opts b h i st"
  have same: "filter (\<lambda>n. \<not> shouldExcludeHeading opts (elements (fst ?st) n)) rest
      = filter (\<lambda>n. \<not> shouldExcludeHeading opts (elements (fst st) n)) rest"
  proof (rule filter_cong [OF refl])
    fix n assume "n \<in> set rest"
    then have "n \<noteq> h" using notin by auto
    then show "(\<not> shouldExcludeHeading opts (elements (fst ?st) n))
        = (\<not> shouldExcludeHeading opts (elements (fst st) n))"
      by (simp add: headingCallback_other)
  qed
  show ?case
    using Cons.IH [OF dist, of "i + 1" ?st]
    by (simp add: same headingCallback_elements)
qed

lemma setupMobileInteraction_items [simp]:
  "tocItems (setupMobileInteraction b m) = tocItems m"
  by (simp add: setupMobileInteraction_def setupHeaderToggle_def Let_def)

lemma generateTOC_items:
  assumes "articleContent m" "tocNav m" "tocContainer m"
    and "querySelectorAll b (selectorOrDefault (headingSelector opts)) = headings"
    and "headings \<noteq> []" and "distinct headings"
  shows "map element (tocItems (generateTOC opts b m))
           = filter (\<lambda>h. \<not> shouldExcludeHeading opts (elements m h)) headings"
proof -
  let ?loop = "headingLoop opts b headings 0 (m\<lparr>tocItems := []\<rparr>, [])"
  have "tocItems (generateTOC opts b m) = tocItems (fst ?loop)"
    using assms by (simp add: generateTOC_def Let_def split: prod.splits)
  moreover have "map element (tocItems (fst ?loop))
      = filter (\<lambda>h. \<not> shouldExcludeHeading opts (elements m h)) headings"
    using headingLoop_items [OF assms(6), of opts b 0 "(m\<lparr>tocItems := []\<rparr>, [])"] by simp
  ultimately show ?thesis by simp
qed




subsection \<open>The list after generateTOC\<close>

lemma updateActiveLinks_items [simp]: "tocItems (updateActiveLinks a m) = tocItems m"
  by (simp add: updateActiveLinks_def)

lemma updateActiveTOC_items [simp]: "tocItems (updateActiveTOC b m) = tocItems m"
  by (simp add: updateActiveTOC_def Let_def)

lemma onScrollComplete_items [simp]: "tocItems (onScrollComplete link m) = tocItems m"
  by (simp add: onScrollComplete_def Let_def)

lemma scrollToElement_items [simp]: "tocItems (scrollToElement b target link m) = tocItems m"
  by (simp add: scrollToElement_def waitForScrollEnd_def Let_def)

lemma navClick_items [simp]: "tocItems (navClick b k m) = tocItems m"
  by (simp add: navClick_def Let_def split: option.splits)

lemma runCallback_items [simp]: "tocItems (runCallback b cb m) = tocItems m"
  by (cases cb) (simp_all add: Let_def)

lemma fold_onScrollComplete_items [simp]: "tocItems (fold onScrollComplete ls m) = tocItems m"
  by (induction ls arbitrary: m) simp_all

lemma step_items [simp]: "tocItems (step b e m) = tocItems m"
  by (cases e)
     (simp_all add: updateDeviceType_def documentKeydown_def handleTouchStart_def
        handleTouchMove_def handleTouchEnd_def headerClick_def headerKeydown_def
        toggleCollapse_def timerDue_def scrollEnd_def Let_def)

lemma run_items: "tocItems (run evs m) = tocItems m"
  by (induction evs arbitrary: m) auto

text \<open>
  Claim C7. On a page with the three elements of the panel, once \<open>generateTOC\<close> has run
  (from the empty list the constructor leaves, or with at least one heading matched) the
  elements of \<open>tocItems\<close> are exactly the matched headings that are not excluded, in the
  order of the heading query; and no event handled afterwards changes the list.
\<close>

theorem generateTOC_items_mirror_document_order:
  assumes "articleContent m" and "tocNav m" and "tocContainer m"
    and "distinct (querySelectorAll b (selectorOrDefault (headingSelector opts)))"
    and "querySelectorAll b (selectorOrDefault (headingSelector opts)) \<noteq> [] \<or> tocItems m = []"
  shows
    "map element (tocItems (generateTOC opts b m))
       = filter (\<lambda>h. \<not> shouldExcludeHeading opts (elements m h))
           (querySelectorAll b (selectorOrDefault (headingSelector opts)))
     \<and> (\<forall>evs. tocItems (run evs (generateTOC opts b m)) = tocItems (generateTOC opts b m))"
proof (intro conjI allI)
  let ?hs = "querySelectorAll b (selectorOrDefault (headingSelector opts))"
  show "map element (tocItems (generateTOC opts b m))
      = filter (\<lambda>h. \<not> shouldExcludeHeading opts (elements m h)) ?hs"
  proof (cases "?hs = []")
    case True
    with assms(5) have "tocItems m = []" by simp
    moreover have "generateTOC opts b m = m" using True assms(1-3) by (simp add: generateTOC_def)
    ultimately show ?thesis using True by simp
  next
    case False
    from generateTOC_items [OF assms(1-3) refl False assms(4)] show ?thesis .
  qed
next
  fix evs
  show "tocItems (run evs (generateTOC opts b m)) = tocItems (generateTOC opts b m)"
    by (rule run_items)
qed

theorem generateTOC_items_mirror_document_order_witness:
  "articleContent sampleManager \<and> tocNav sampleManager \<and> tocContainer sampleManager
   \<and> distinct (querySelectorAll sampleBrowser (selectorOrDefault (headingSelector sampleOptions)))
   \<and> querySelectorAll sampleBrowser (selectorOrDefault (headingSelector sampleOptions)) = [0, 1, 2, 3]
   \<and> tocItems sampleManager = []
   \<and> map element (tocItems (generateTOC sampleOptions sampleBrowser sampleManager)) = [0, 2, 3]
   \<and> map element (tocItems (run [(sampleBrowser, NavClick 1), (sampleBrowser, ScrollEvent)]
          (generateTOC sampleOptions sampleBrowser sampleManager))) = [0, 2, 3]"
proof -
  have page: "articleContent sampleManager" "tocNav sampleManager" "tocContainer sampleManager"
    and empty: "tocItems sampleManager = []"
    by (simp_all add: sampleManager_def)
  have query: "querySelectorAll sampleBrowser (selectorOrDefault (headingSelector sampleOptions)) = [0, 1, 2, 3]"
    by (simp add: sampleBrowser_def)
  have dist: "distinct (querySelectorAll sampleBrowser (selectorOrDefault (headingSelector sampleOptions)))"
    by (simp add: query)
  have kept: "filter (\<lambda>h. \<not> shouldExcludeHeading sampleOptions (elements sampleManager h)) [0, 1, 2, 3] = [0, 2, 3]"
    by (simp add: sample_defs shouldExcludeHeading_def hasAttribute_def closestHasAttribute_def)
  note mirror = generateTOC_items_mirror_document_order [OF page dist disjI2 [OF empty]]
  have "map element (tocItems (generateTOC sampleOptions sampleBrowser sampleManager)) = [0, 2, 3]"
    using mirror [THEN conjunct1] by (simp only: query kept)
  moreover from this
  have "map element (tocItems (run [(sampleBrowser, NavClick 1), (sampleBrowser, ScrollEvent)]
          (generateTOC sampleOptions sampleBrowser sampleManager))) = [0, 2, 3]"
    using mirror [THEN conjunct2, rule_format, of "[(sampleBrowser, NavClick 1), (sampleBrowser, ScrollEvent)]"]
    by simp
  ultimately show ?thesis using page dist empty query by simp
qed

subsection \<open>The panel on mobile\<close>

text \<open>
  Claim C4. When \<open>setupMobileInteraction\<close> runs on mobile for a panel that has its
  \<open>h3\<close> header, it adds the class \<open>collapsed\<close> exactly when the list has more than 6
  items or the viewport is at most 768 pixels wide; otherwise the panel is left as it was,
  so a panel that was expanded stays expanded.
\<close>

theorem setupMobileInteraction_auto_collapse:
  assumes "tocContainer m" and "tocHeader m" and "isMobile m"
  shows
    "collapsed (setupMobileInteraction b m)
       = (if length (tocItems m) > 6 \<or> innerWidth b \<le> 768 then True else collapsed m)"
  using assms by (simp add: setupMobileInteraction_def setupHeaderToggle_def Let_def)

theorem setupMobileInteraction_auto_collapse_witness:
  "tocContainer loadedManager \<and> tocHeader loadedManager \<and> isMobile loadedManager
   \<and> length (tocItems loadedManager) = 3
   \<and> \<not> collapsed loadedManager
   \<and> \<not> collapsed (setupMobileInteraction sampleBrowser loadedManager)
   \<and> collapsed (setupMobileInteraction (sampleBrowser\<lparr>innerWidth := 768\<rparr>) loadedManager)
   \<and> \<not> collapsed (setupMobileInteraction (sampleBrowser\<lparr>innerWidth := 769\<rparr>) loadedManager)
   \<and> collapsed (setupMobileInteraction sampleBrowser
         (loadedManager\<lparr>tocItems := tocItems loadedManager @ tocItems loadedManager
                                        @ [hd (tocItems loadedManager)]\<rparr>))"
proof -
  have header: "tocHeader loadedManager" by (simp add: loadedManager_flags)
  have page: "tocContainer loadedManager" "isMobile loadedManager" "\<not> collapsed loadedManager"
    by (simp_all add: loadedManager_flags)
  have len: "length (tocItems loadedManager) = 3" by (simp add: loadedManager_items)
  have w800: "innerWidth sampleBrowser = 800" by (simp add: sampleBrowser_def)
  let ?long = "loadedManager\<lparr>tocItems := tocItems loadedManager @ tocItems loadedManager
                                        @ [hd (tocItems loadedManager)]\<rparr>"
  have "\<not> collapsed (setupMobileInteraction sampleBrowser loadedManager)"
    using setupMobileInteraction_auto_collapse [OF page(1) header page(2), of sampleBrowser]
    by (simp add: len w800 page)
  moreover have "collapsed (setupMobileInteraction (sampleBrowser\<lparr>innerWidth := 768\<rparr>) loadedManager)"
    using setupMobileInteraction_auto_collapse [OF page(1) header page(2), of "sampleBrowser\<lparr>innerWidth := 768\<rparr>"]
    by (simp add: len)
  moreover have "\<not> collapsed (setupMobileInteraction (sampleBrowser\<lparr>innerWidth := 769\<rparr>) loadedManager)"
    using setupMobileInteraction_auto_collapse [OF page(1) header page(2), of "sampleBrowser\<lparr>innerWidth := 769\<rparr>"]
    by (simp add: len page)
  moreover have "collapsed (setupMobileInteraction sampleBrowser ?long)"
    using setupMobileInteraction_auto_collapse [of ?long sampleBrowser] header page
    by (simp add: len w800)
  ultimately show ?thesis using header page len by simp
qed

subsection \<open>The header toggle\<close>

lemma touch_moves:
  "headerToggle m \<Longrightarrow>
     fold (step b) (map (\<lambda>p. HeaderTouchMove (fst p) (snd p)) moves) m
       = m\<lparr>isTap := isTap m
              \<and> list_all (\<lambda>p. \<bar>fst p - touchStartX m\<bar> \<le> 10 \<and> \<bar>snd p - touchStartY m\<bar> \<le> 10) moves\<rparr>"
proof (induction moves arbitrary: m)
  case Nil
  then show ?case by simp
next
  case (Cons p rest)
  define m' where "m' = step b (HeaderTouchMove (fst p) (snd p)) m"
  have toggle: "headerToggle m'" using Cons.prems by (simp add: m'_def handleTouchMove_def Let_def)
  have start: "touchStartX m' = touchStartX m" "touchStartY m' = touchStartY m"
    by (simp_all add: m'_def handleTouchMove_def Let_def)
  have tap: "isTap m' = (isTap m \<and> \<bar>fst p - touchStartX m\<bar> \<le> 10 \<and> \<bar>snd p - touchStartY m\<bar> \<le> 10)"
    using Cons.prems by (auto simp: m'_def handleTouchMove_def Let_def)
  have frame: "m' = m\<lparr>isTap := isTap m'\<rparr>"
    using Cons.prems by (simp add: m'_def handleTouchMove_def Let_def)
  have "fold (step b) (map (\<lambda>p. HeaderTouchMove (fst p) (snd p)) (p # rest)) m
      = fold (step b) (map (\<lambda>p. HeaderTouchMove (fst p) (snd p)) rest) m'"
    by (simp add: m'_def)
  also have "\<dots> = m'\<lparr>isTap := isTap m'
              \<and> list_all (\<lambda>p. \<bar>fst p - touchStartX m\<bar> \<le> 10 \<and> \<bar>snd p - touchStartY m\<bar> \<le> 10) rest\<rparr>"
    using Cons.IH [OF toggle] by (simp add: start)
  also have "\<dots> = m\<lparr>isTap := isTap m'
              \<and> list_all (\<lambda>p. \<bar>fst p - touchStartX m\<bar> \<le> 10 \<and> \<bar>snd p - touchStartY m\<bar> \<le> 10) rest\<rparr>"
    by (subst frame) simp
  finally show ?case by (simp add: tap conj_assoc)
qed

text \<open>
  Claim C5. With the toggle listeners on the header, a touch gesture toggles the class
  \<open>collapsed\<close> at its touch end exactly when no touch move was more than 10 pixels
  away from the touch start in either axis; one move of more than 10 pixels in X or in Y
  suppresses the toggle, also when the finger comes back. A keydown of Enter or Space on
  the header always toggles.
\<close>

theorem header_tap_and_keyboard_toggle:
  assumes "headerToggle m" and "tocContainer m"
  shows
    "collapsed (fold (step b) (touchGesture (x0, y0) moves) m)
       = (if list_all (\<lambda>p. \<bar>fst p - x0\<bar> \<le> 10 \<and> \<bar>snd p - y0\<bar> \<le> 10) moves
          then \<not> collapsed m else collapsed m)
     \<and> (\<forall>key. key = js ''Enter'' \<or> key = js '' '' \<longrightarrow>
           collapsed (step b (HeaderKeydown key) m) = (\<not> collapsed m))"
proof (intro conjI allI impI)
  let ?m0 = "m\<lparr>touchStartY := y0, touchStartX := x0, isTap := True\<rparr>"
  let ?ok = "list_all (\<lambda>p. \<bar>fst p - x0\<bar> \<le> 10 \<and> \<bar>snd p - y0\<bar> \<le> 10) moves"
  have start: "step b (HeaderTouchStart x0 y0) m = ?m0"
    using assms by (simp add: handleTouchStart_def)
  have toggle: "headerToggle ?m0" using assms by simp
  have moved: "fold (step b) (map (\<lambda>p. HeaderTouchMove (fst p) (snd p)) moves) ?m0
      = ?m0\<lparr>isTap := ?ok\<rparr>"
    using touch_moves [OF toggle, of b moves] by simp
  have "fold (step b) (touchGesture (x0, y0) moves) m
      = step b HeaderTouchEnd (fold (step b) (map (\<lambda>p. HeaderTouchMove (fst p) (snd p)) moves)
          (step b (HeaderTouchStart x0 y0) m))"
    by (simp add: touchGesture_def)
  also have "\<dots> = step b HeaderTouchEnd (?m0\<lparr>isTap := ?ok\<rparr>)"
    by (simp only: start moved)
  finally show "collapsed (fold (step b) (touchGesture (x0, y0) moves) m)
       = (if ?ok then \<not> collapsed m else collapsed m)"
    using assms by (simp add: handleTouchEnd_def toggleCollapse_def)
next
  fix key :: jsstring
  assume "key = js ''Enter'' \<or> key = js '' ''"
  then show "collapsed (step b (HeaderKeydown key) m) = (\<not> collapsed m)"
    using assms by (auto simp: headerKeydown_def toggleCollapse_def)
qed

theorem header_tap_and_keyboard_toggle_witness:
  "headerToggle loadedManager \<and> tocContainer loadedManager \<and> \<not> collapsed loadedManager
   \<and> collapsed (fold (step sampleBrowser) (touchGesture (100, 40) [(104, 43), (110, 50)]) loadedManager)
   \<and> \<not> collapsed (fold (step sampleBrowser) (touchGesture (100, 40) [(104, 51), (100, 40)]) loadedManager)
   \<and> collapsed (step sampleBrowser (HeaderKeydown (js '' '')) loadedManager)"
proof -
  have page: "headerToggle loadedManager" "tocContainer loadedManager" "\<not> collapsed loadedManager"
    by (simp_all add: loadedManager_flags)
  note toggle = header_tap_and_keyboard_toggle [OF page(1,2), of sampleBrowser]
  have "collapsed (fold (step sampleBrowser) (touchGesture (100, 40) [(104, 43), (110, 50)]) loadedManager)"
    using toggle [of 100 40 "[(104, 43), (110, 50)]", THEN conjunct1] page(3) by simp
  moreover have "\<not> collapsed (fold (step sampleBrowser) (touchGesture (100, 40) [(104, 51), (100, 40)]) loadedManager)"
    using toggle [of 100 40 "[(104, 51), (100, 40)]", THEN conjunct1] page(3) by simp
  moreover have "collapsed (step sampleBrowser (HeaderKeydown (js '' '')) loadedManager)"
    using toggle [of 0 0 "[]", THEN conjunct2, rule_format, of "js '' ''"] page(3) by simp
  ultimately show ?thesis using page by simp
qed

subsection \<open>Programmatic scrolls\<close>

lemma onScrollComplete_flag [simp]:
  "isScrolling (onScrollComplete link m) = False"
  "scrollRequests (onScrollComplete link m) = scrollRequests m"
  "lastScrollTimestamp (onScrollComplete link m) = lastScrollTimestamp m"
  by (simp_all add: onScrollComplete_def updateActiveLinks_def Let_def)

lemma scrollToElement_suppressed:
  "isScrolling m \<Longrightarrow> now b - lastScrollTimestamp m \<le> 3000 \<Longrightarrow> scrollToElement b target link m = m"
  by (simp add: scrollToElement_def)

lemma scrollToElement_starts:
  assumes "\<not> isScrolling m \<or> now b - lastScrollTimestamp m > 3000"
  shows "\<exists>r. scrollRequests (scrollToElement b target link m) = scrollRequests m @ [r]"
    and "lastScrollTimestamp (scrollToElement b target link m) = now b"
  using assms by (auto simp: scrollToElement_def waitForScrollEnd_def Let_def)

lemma fold_onScrollComplete_flag [simp]:
  "isScrolling (fold onScrollComplete ls m) = (if ls = [] then isScrolling m else False)"
  "scrollRequests (fold onScrollComplete ls m) = scrollRequests m"
  "lastScrollTimestamp (fold onScrollComplete ls m) = lastScrollTimestamp m"
  by (induction ls arbitrary: m rule: rev_induct) simp_all

lemma runCallback_in_flight:
  assumes "isScrolling m" and "now b - lastScrollTimestamp m \<le> 3000"
    and "isScrolling (runCallback b cb m)"
  shows "scrollRequests (runCallback b cb m) = scrollRequests m
         \<and> lastScrollTimestamp (runCallback b cb m) = lastScrollTimestamp m"
  using assms by (cases cb) (auto simp: scrollToElement_suppressed Let_def split: if_splits)

lemma step_in_flight:
  assumes "isScrolling m" and "now b - lastScrollTimestamp m \<le> 3000"
    and "isScrolling (step b e m)"
  shows "scrollRequests (step b e m) = scrollRequests m
         \<and> lastScrollTimestamp (step b e m) = lastScrollTimestamp m"
proof (cases e)
  case (NavClick k)
  then show ?thesis using assms
    by (auto simp: navClick_def scrollToElement_suppressed Let_def split: option.splits)
next
  case (TimerDue n)
  show ?thesis
  proof (cases "n < length (timers m)")
    case True
    let ?m = "m\<lparr>timers := take n (timers m) @ drop (Suc n) (timers m)\<rparr>"
    have "step b e m = runCallback b (snd (timers m ! n)) ?m"
      using True TimerDue by (simp add: timerDue_def)
    moreover have "isScrolling ?m" "now b - lastScrollTimestamp ?m \<le> 3000" using assms by simp_all
    ultimately show ?thesis using runCallback_in_flight [of ?m b "snd (timers m ! n)"] assms(3) by simp
  next
    case False
    then show ?thesis using TimerDue by (simp add: timerDue_def)
  qed
qed (use assms in \<open>simp_all add: updateActiveTOC_def setupMobileInteraction_def setupHeaderToggle_def
       updateDeviceType_def documentKeydown_def handleTouchStart_def handleTouchMove_def
       handleTouchEnd_def headerClick_def headerKeydown_def toggleCollapse_def scrollEnd_def Let_def\<close>)

lemma run_in_flight:
  "flagHeld evs m \<Longrightarrow>
     scrollRequests (run evs m) = scrollRequests m
     \<and> lastScrollTimestamp (run evs m) = lastScrollTimestamp m"
proof (induction evs arbitrary: m)
  case Nil
  then show ?case by simp
next
  case (Cons be rest)
  obtain b e where be: "be = (b, e)" by (cases be)
  from Cons.prems be have held: "isScrolling m" "now b - lastScrollTimestamp m \<le> 3000"
    and rest: "flagHeld rest (step b e m)" by simp_all
  have "isScrolling (step b e m)" using rest by (cases rest) auto
  from step_in_flight [OF held this] Cons.IH [OF rest] show ?case by (simp add: be)
qed

text \<open>
  What the guard of \<open>scrollToElement\<close> gives. Whatever events arrive (clicks on links
  among them) while the flag \<open>isScrolling\<close> stays set and no more than 3000 ms have
  passed since the scroll that set it, no further scroll command is given to the window;
  a call of \<open>scrollToElement\<close> in that time returns the state as it was. A call more
  than 3000 ms after the scroll that set the flag (and any call with the flag clear) gives
  the window one more scroll command and takes the time stamp.
\<close>

lemma scrollToElement_guard:
  "(\<forall>evs. flagHeld evs m \<longrightarrow>
       scrollRequests (run evs m) = scrollRequests m
       \<and> lastScrollTimestamp (run evs m) = lastScrollTimestamp m)
   \<and> (isScrolling m \<and> now b - lastScrollTimestamp m \<le> 3000 \<longrightarrow>
         scrollToElement b target link m = m)
   \<and> (\<not> isScrolling m \<or> now b - lastScrollTimestamp m > 3000 \<longrightarrow>
         (\<exists>r. scrollRequests (scrollToElement b target link m) = scrollRequests m @ [r])
         \<and> lastScrollTimestamp (scrollToElement b target link m) = now b)"
  using run_in_flight scrollToElement_suppressed scrollToElement_starts by blast

lemma loadedManager_elemIds:
  "elemId (elements loadedManager 0) = js ''h2-0-getting-started''"
  "elemId (elements loadedManager (Suc 0)) = js ''notes''"
  "elemId (elements loadedManager 2) = js ''usage''"
  "elemId (elements loadedManager 3) = js ''faq''"
  using loadedManager_ids by simp_all

lemma desktopManager_fields:
  "tocItems desktopManager = tocItems loadedManager"
  "links desktopManager = links loadedManager"
  "elements desktopManager = elements loadedManager"
  "nodeCount desktopManager = 4"
  "\<not> isMobile desktopManager" "tocNav desktopManager" "tocContainer desktopManager"
  "\<not> isScrolling desktopManager" "currentActiveIndex desktopManager = - 1"
  "timers desktopManager = []" "scrollRequests desktopManager = []"
  "scrollEndListeners desktopManager = []" "lastScrollTimestamp desktopManager = 0"
  by (simp_all add: desktopManager_def loadedManager_flags)

lemma desktopBrowser_fields:
  "now (desktopBrowser t) = t" "pageYOffset (desktopBrowser t) = 500"
  "documentScrollTop (desktopBrowser t) = 500"
  "smoothScrollSupported (desktopBrowser t)" "scrollEndSupported (desktopBrowser t)"
  "boundingTop (desktopBrowser t) 0 = - 300" "boundingTop (desktopBrowser t) 2 = 60"
  "boundingTop (desktopBrowser t) 3 = 700"
  by (simp_all add: desktopBrowser_def sampleBrowser_def)

lemma scrollingManager_explicit:
  "scrollingManager =
     desktopManager\<lparr>isScrolling := True, lastScrollTimestamp := 1000,
       timers := [(4000, SafetyReset), (1240, DesktopFallback 0 80)],
       scrollRequests := [ScrollTo 80 True], scrollEndListeners := [0]\<rparr>"
  by (simp add: scrollingManager_def navClick_def desktopManager_fields loadedManager_links
      loadedManager_elemIds getElementById_def upt_rec js_def scrollToElement_def
      desktopBrowser_fields getDynamicOffset_def numOr_def Let_def)


lemma scrollingManager_fields:
  "isScrolling scrollingManager" "lastScrollTimestamp scrollingManager = 1000"
  "\<not> isMobile scrollingManager" "tocNav scrollingManager"
  "scrollRequests scrollingManager = [ScrollTo 80 True]"
  "currentActiveIndex scrollingManager = - 1"
  "links scrollingManager = links loadedManager"
  "tocItems scrollingManager = tocItems loadedManager"
  "elements scrollingManager = elements loadedManager"
  "nodeCount scrollingManager = 4"
  by (simp_all add: scrollingManager_explicit desktopManager_fields)

lemma scrollingManager_click:
  "t \<le> 4000 \<Longrightarrow> step (desktopBrowser t) (NavClick k) scrollingManager = scrollingManager"
  by (auto simp: navClick_def scrollingManager_fields desktopBrowser_fields
      scrollToElement_suppressed split: option.splits)

lemma scrollToElement_guard_example:
  "flagHeld [(desktopBrowser 1500, NavClick 2), (desktopBrowser 2500, ScrollEvent),
             (desktopBrowser 3900, NavClick 1)] scrollingManager
   \<and> scrollRequests (run [(desktopBrowser 1500, NavClick 2), (desktopBrowser 2500, ScrollEvent),
             (desktopBrowser 3900, NavClick 1)] scrollingManager) = [ScrollTo 80 True]
   \<and> isScrolling scrollingManager
   \<and> now (desktopBrowser 4000) - lastScrollTimestamp scrollingManager \<le> 3000
   \<and> scrollToElement (desktopBrowser 4000) 3 2 scrollingManager = scrollingManager
   \<and> now (desktopBrowser 4001) - lastScrollTimestamp scrollingManager > 3000
   \<and> length (scrollRequests (scrollToElement (desktopBrowser 4001) 3 2 scrollingManager)) = 2
   \<and> lastScrollTimestamp (scrollToElement (desktopBrowser 4001) 3 2 scrollingManager) = 4001"
proof -
  let ?evs = "[(desktopBrowser 1500, NavClick 2), (desktopBrowser 2500, ScrollEvent),
               (desktopBrowser 3900, NavClick 1)]"
  have track: "step (desktopBrowser 2500) ScrollEvent scrollingManager = scrollingManager"
    by (simp add: updateActiveTOC_def scrollingManager_fields)
  have held: "flagHeld ?evs scrollingManager"
    by (simp add: scrollingManager_click track scrollingManager_fields desktopBrowser_fields
        del: step.simps)
  have early: "isScrolling scrollingManager"
      "now (desktopBrowser 4000) - lastScrollTimestamp scrollingManager \<le> 3000"
    and late: "now (desktopBrowser 4001) - lastScrollTimestamp scrollingManager > 3000"
    by (simp_all add: scrollingManager_fields desktopBrowser_fields)
  note window = scrollToElement_guard [of scrollingManager _ 3 2]
  have "scrollRequests (run ?evs scrollingManager) = [ScrollTo 80 True]"
    using window [of "desktopBrowser 4000", THEN conjunct1, rule_format, OF held]
    by (simp add: scrollingManager_fields)
  moreover have "scrollToElement (desktopBrowser 4000) 3 2 scrollingManager = scrollingManager"
    using window [of "desktopBrowser 4000", THEN conjunct2, THEN conjunct1] early by simp
  moreover have "length (scrollRequests (scrollToElement (desktopBrowser 4001) 3 2 scrollingManager)) = 2
      \<and> lastScrollTimestamp (scrollToElement (desktopBrowser 4001) 3 2 scrollingManager) = 4001"
    using window [of "desktopBrowser 4001", THEN conjunct2, THEN conjunct2] late
    by (auto simp: scrollingManager_fields desktopBrowser_fields)
  ultimately show ?thesis using held early late by simp
qed

subsection \<open>Clicks on links\<close>






lemma loadedManager_elemIds_Suc:
  "elemId (elements loadedManager (Suc (Suc 0))) = js ''usage''"
  "elemId (elements loadedManager (Suc (Suc (Suc 0)))) = js ''faq''"
  using loadedManager_elemIds by (simp_all add: numeral_2_eq_2 numeral_3_eq_3)



subsection \<open>A safety timer left behind\<close>

lemma desktopAt_fields:
  "now (desktopAt t y) = t" "pageYOffset (desktopAt t y) = y"
  "documentScrollTop (desktopAt t y) = y"
  "smoothScrollSupported (desktopAt t y)" "scrollEndSupported (desktopAt t y)"
  "boundingTop (desktopAt t y) 0 = 200 - y" "boundingTop (desktopAt t y) 2 = 560 - y"
  "boundingTop (desktopAt t y) 3 = 1200 - y"
  "boundingTop (desktopAt t y) (Suc (Suc 0)) = 560 - y"
  "boundingTop (desktopAt t y) (Suc (Suc (Suc 0))) = 1200 - y"
  by (simp_all add: desktopAt_def sampleBrowser_def)

lemmas click_defs =
  navClick_def desktopManager_fields loadedManager_links loadedManager_items
  loadedManager_elemIds loadedManager_elemIds_Suc getElementById_def upt_rec js_def
  scrollToElement_def desktopAt_fields getDynamicOffset_def numOr_def Let_def

text \<open>
  Claim C2, at a failing input. After the second click (time 3900) its scroll is in flight:
  the flag is set and its \<open>scrollend\<close> listener waits. The safety timer left by the first
  scroll clears the flag at 4000, and the third click at 4100, 200 ms after the second
  scroll began and before it has completed, gives the window a third scroll command.
\<close>

theorem third_click_starts_scroll_during_second:
  "isScrolling (run secondScroll desktopManager)
   \<and> lastScrollTimestamp (run secondScroll desktopManager) = 3900
   \<and> scrollEndListeners (run secondScroll desktopManager) = [1]
   \<and> scrollRequests (run secondScroll desktopManager) = [ScrollTo 80 True, ScrollTo 440 True]
   \<and> timers (run secondScroll desktopManager)
       = [(4000, SafetyReset), (6900, SafetyReset), (4140, DesktopFallback 1 440)]
   \<and> \<not> isScrolling (run (secondScroll @ staleTimer) desktopManager)
   \<and> scrollEndListeners (run (secondScroll @ staleTimer) desktopManager) = [1]
   \<and> scrollRequests (run (secondScroll @ staleTimer @ thirdClick) desktopManager)
       = [ScrollTo 80 True, ScrollTo 440 True, ScrollTo 1080 True]
   \<and> lastScrollTimestamp (run (secondScroll @ staleTimer @ thirdClick) desktopManager) = 4100
   \<and> currentActiveIndex (run (secondScroll @ staleTimer @ thirdClick) desktopManager) = 0"
proof -
  let ?m1 = "desktopManager\<lparr>isScrolling := True, lastScrollTimestamp := 1000,
       timers := [(4000, SafetyReset), (1240, DesktopFallback 0 80)],
       scrollRequests := [ScrollTo 80 True], scrollEndListeners := [0]\<rparr>"
  let ?m2 = "?m1\<lparr>timers := [(4000, SafetyReset)]\<rparr>"
  let ?m3 = "?m2\<lparr>scrollEndListeners := [], isScrolling := False,
       links := [\<lparr>href = js ''#h2-0-getting-started'', dataTocIndex = 0, active = True\<rparr>,
                 \<lparr>href = js ''#usage'', dataTocIndex = 1, active = False\<rparr>,
                 \<lparr>href = js ''#faq'', dataTocIndex = 2, active = False\<rparr>],
       currentActiveIndex := 0\<rparr>"
  let ?m4 = "?m3\<lparr>isScrolling := True, lastScrollTimestamp := 3900,
       timers := [(4000, SafetyReset), (6900, SafetyReset), (4140, DesktopFallback 1 440)],
       scrollRequests := [ScrollTo 80 True, ScrollTo 440 True], scrollEndListeners := [1]\<rparr>"
  let ?m5 = "?m4\<lparr>isScrolling := False, timers := [(6900, SafetyReset), (4140, DesktopFallback 1 440)]\<rparr>"
  have s1: "step (desktopAt 1000 500) (NavClick 0) desktopManager = ?m1"
    by (simp add: click_defs)
  have s2: "step (desktopAt 1240 290) (TimerDue 1) ?m1 = ?m2"
    by (simp add: timerDue_def desktopAt_fields)
  have s3: "step (desktopAt 1500 80) ScrollEndEvent ?m2 = ?m3"
    by (simp add: scrollEnd_def onScrollComplete_def updateActiveLinks_def findIndex_def
        desktopManager_fields loadedManager_links loadedManager_items js_def Let_def
        enumerate_eq_zip upt_rec)
  have s4: "step (desktopAt 3900 80) (NavClick 1) ?m3 = ?m4"
    by (simp add: click_defs)
  have s5: "step (desktopAt 4000 150) (TimerDue 0) ?m4 = ?m5"
    by (simp add: timerDue_def)
  have r4: "run secondScroll desktopManager = ?m4"
    by (simp only: secondScroll_def run.simps s1 s2 s3 s4)
  have r5: "run (secondScroll @ staleTimer) desktopManager = ?m5"
    by (simp only: secondScroll_def staleTimer_def append.simps run.simps s1 s2 s3 s4 s5)
  have r6: "run (secondScroll @ staleTimer @ thirdClick) desktopManager
      = step (desktopAt 4100 300) (NavClick 2) ?m5"
    by (simp only: secondScroll_def staleTimer_def thirdClick_def append.simps run.simps s1 s2 s3 s4 s5)
  have s6: "scrollRequests (step (desktopAt 4100 300) (NavClick 2) ?m5)
        = [ScrollTo 80 True, ScrollTo 440 True, ScrollTo 1080 True]"
      "lastScrollTimestamp (step (desktopAt 4100 300) (NavClick 2) ?m5) = 4100"
      "currentActiveIndex (step (desktopAt 4100 300) (NavClick 2) ?m5) = 0"
    by (simp_all add: click_defs)
  show ?thesis unfolding r4 r5 r6 s6 by simp
qed

section \<open>Properties of the reading time\<close>

lemma afterFirst_shorter: "afterFirst ch s = Some r \<Longrightarrow> length r < length s"
  by (induction s) (auto split: if_splits)

lemma afterFirstSeq_shorter: "afterFirstSeq pat s = Some r \<Longrightarrow> length r \<le> length s"
  by (induction s) (auto split: if_splits)

lemma lineAfter_shorter: "lineAfter pat s = Some r \<Longrightarrow> length r \<le> length s"
  by (induction s) (auto split: if_splits)

text \<open>No match of the five expressions is empty, so every match moves the scan on.\<close>

lemma matchLink_consume: "matchLink s = Some r \<Longrightarrow> length r < length s"
proof -
  assume "matchLink s = Some r"
  then obtain c cs r1 where s: "s = c # cs" and r1: "lineAfter (js '']('') cs = Some r1"
    and r: "lineAfter (js '')'') r1 = Some r"
    by (auto simp: matchLink_def split: list.splits if_splits option.splits)
  from lineAfter_shorter [OF r1] lineAfter_shorter [OF r] show ?thesis by (simp add: s)
qed

lemma matchFence_consume: "matchFence s = Some r \<Longrightarrow> length r < length s"
proof -
  assume a: "matchFence s = Some r"
  then have t: "take 3 s = js ''```''" and f: "afterFirstSeq (js ''```'') (drop 3 s) = Some r"
    by (auto simp: matchFence_def split: if_splits)
  from t have "length (take 3 s) = 3" by (simp add: js_def)
  then have "3 \<le> length s" by simp
  moreover from afterFirstSeq_shorter [OF f] have "length r \<le> length s - 3" by simp
  ultimately show ?thesis by linarith
qed

lemma matchers_consume:
  "matchTag s = Some r \<Longrightarrow> length r < length s"
  "matchFence s = Some r \<Longrightarrow> length r < length s"
  "matchInlineCode s = Some r \<Longrightarrow> length r < length s"
  "matchLink s = Some r \<Longrightarrow> length r < length s"
  "matchImage s = Some r \<Longrightarrow> length r < length s"
proof -
  show "matchTag s = Some r \<Longrightarrow> length r < length s"
    by (cases s) (auto simp: matchTag_def split: if_splits dest: afterFirst_shorter)
  show "matchInlineCode s = Some r \<Longrightarrow> length r < length s"
    by (cases s) (auto simp: matchInlineCode_def split: if_splits dest: afterFirst_shorter)
  show "matchFence s = Some r \<Longrightarrow> length r < length s" by (rule matchFence_consume)
  show "matchLink s = Some r \<Longrightarrow> length r < length s" by (rule matchLink_consume)
  show "matchImage s = Some r \<Longrightarrow> length r < length s"
    by (cases s) (auto simp: matchImage_def split: if_splits dest: matchLink_consume)
qed

lemma ceil_div_600: "- (- (n::int) div 600) = (n + 599) div 600"
proof -
  define q where "q = (n + 599) div 600"
  define r where "r = (n + 599) mod 600"
  have split: "n + 599 = 600 * q + r" by (simp add: q_def r_def)
  have bounds: "0 \<le> r" "r < 600" by (simp_all add: r_def)
  have "- n div 600 = - q"
  proof (rule int_div_pos_eq [of _ _ _ "599 - r"])
    show "- n = 600 * - q + (599 - r)" using split by simp
    show "0 \<le> 599 - r" using bounds by simp
    show "599 - r < 600" using bounds by simp
  qed
  then show ?thesis by (simp add: q_def)
qed

lemma ceiling_600:
  "\<lceil>real w / 200 + (real i * 12) / 60 + (real c * 25) / 60\<rceil>
     = (3 * int w + 120 * int i + 250 * int c + 599) div 600"
proof -
  let ?n = "3 * int w + 120 * int i + 250 * int c"
  have "real w / 200 + (real i * 12) / 60 + (real c * 25) / 60 = of_int ?n / of_int 600"
    by simp
  then have "\<lceil>real w / 200 + (real i * 12) / 60 + (real c * 25) / 60\<rceil> = - (- ?n div 600)"
    by (simp only: ceiling_divide_eq_div)
  also have "\<dots> = (?n + 599) div 600" by (rule ceil_div_600)
  finally show ?thesis .
qed

text \<open>
  Claim C10. For every content, \<open>minutes\<close> is the ceiling of
  \<open>words / 200 + images * 12 / 60 + codeBlocks * 25 / 60\<close>, with the words counted on the
  cleaned text, the images as matches of the image expression and the code blocks as
  matches of the fence expression in the content; it is a natural number, given by
  integer arithmetic as well; and \<open>text\<close> is the decimal numeral of \<open>minutes\<close> followed by
  \<open>minute read\<close> when \<open>minutes\<close> is 1 and by \<open>minutes read\<close> otherwise.
\<close>

theorem calculateReadingTime_minutes_and_text:
  "minutes (calculateReadingTime content)
     = \<lceil>real (words (calculateReadingTime content)) / 200
         + real (countAll matchImage content) * 12 / 60
         + real (countAll matchFence content) * 25 / 60\<rceil>
   \<and> words (calculateReadingTime content)
       = length (filter (\<lambda>w. w \<noteq> []) (splitWhiteSpace (cleanText content)))
   \<and> 0 \<le> minutes (calculateReadingTime content)
   \<and> minutes (calculateReadingTime content)
       = (3 * int (words (calculateReadingTime content)) + 120 * int (countAll matchImage content)
            + 250 * int (countAll matchFence content) + 599) div 600
   \<and> text' (calculateReadingTime content)
       = (if minutes (calculateReadingTime content) = 1 then js ''1 minute read''
          else showNat (nat (minutes (calculateReadingTime content))) @ js '' minutes read'')"
proof -
  let ?w = "length (filter (\<lambda>word. length word > 0) (splitWhiteSpace (cleanText content)))"
  let ?i = "countAll matchImage content" and ?c = "countAll matchFence content"
  let ?t = "\<lceil>real ?w / 200 + (real ?i * 12) / 60 + (real ?c * 25) / 60\<rceil>"
  have m: "minutes (calculateReadingTime content) = ?t"
    and w: "words (calculateReadingTime content) = ?w"
    and t: "text' (calculateReadingTime content)
        = showNat (nat ?t) @ js '' minute'' @ (if ?t \<noteq> 1 then js ''s'' else []) @ js '' read''"
    by (simp_all add: calculateReadingTime_def Let_def)
  have int: "?t = (3 * int ?w + 120 * int ?i + 250 * int ?c + 599) div 600"
    by (rule ceiling_600)
  have nonneg: "0 \<le> ?t" unfolding int by simp
  have one: "showNat (nat 1) = js ''1''" by (simp add: showNat.simps js_def)
  have filt: "?w = length (filter (\<lambda>w. w \<noteq> []) (splitWhiteSpace (cleanText content)))" by simp
  have c1: "minutes (calculateReadingTime content)
     = \<lceil>real (words (calculateReadingTime content)) / 200
         + real (countAll matchImage content) * 12 / 60
         + real (countAll matchFence content) * 25 / 60\<rceil>"
    by (simp only: m w)
  have c2: "words (calculateReadingTime content)
       = length (filter (\<lambda>w. w \<noteq> []) (splitWhiteSpace (cleanText content)))"
    by (simp only: w filt)
  have c3: "0 \<le> minutes (calculateReadingTime content)" by (simp only: m nonneg)
  have c4: "minutes (calculateReadingTime content)
       = (3 * int (words (calculateReadingTime content)) + 120 * int (countAll matchImage content)
            + 250 * int (countAll matchFence content) + 599) div 600"
    using int by (simp only: m w)
  have c5: "text' (calculateReadingTime content)
       = (if minutes (calculateReadingTime content) = 1 then js ''1 minute read''
          else showNat (nat (minutes (calculateReadingTime content))) @ js '' minutes read'')"
  proof (cases "?t = 1")
    case True
    then show ?thesis by (simp only: m t one) (simp add: js_def)
  next
    case False
    then show ?thesis by (simp only: m t) (simp add: js_def)
  qed
  from c1 c2 c3 c4 c5 show ?thesis by (intro conjI)
qed


lemmas reading_defs =
  cleanText_def js_def matchImage_def matchLink_def isLineTerminator_def
  matchFence_def matchTag_def matchInlineCode_def trim_def isWhiteSpace_def

theorem calculateReadingTime_minutes_and_text_witness:
  "cleanText sampleArticle = js ''Hello world see  and $1  done''
   \<and> words (calculateReadingTime sampleArticle) = 6
   \<and> countAll matchImage sampleArticle = 1
   \<and> countAll matchFence sampleArticle = 0
   \<and> minutes (calculateReadingTime sampleArticle) = 1
   \<and> text' (calculateReadingTime sampleArticle) = js ''1 minute read''
   \<and> cleanText galleryArticle = js ''Gallery       end''
   \<and> words (calculateReadingTime galleryArticle) = 2
   \<and> countAll matchImage galleryArticle = 5
   \<and> countAll matchFence galleryArticle = 1
   \<and> minutes (calculateReadingTime galleryArticle) = 2
   \<and> text' (calculateReadingTime galleryArticle) = js ''2 minutes read''"
proof -
  have c1: "cleanText sampleArticle = js ''Hello world see  and $1  done''"
    by (simp add: sampleArticle_def reading_defs)
  have w1: "length (filter (\<lambda>w. w \<noteq> []) (splitWhiteSpace (cleanText sampleArticle))) = 6"
    unfolding c1 by (simp add: js_def splitWhiteSpace.simps isWhiteSpace_def Let_def)
  have i1: "countAll matchImage sampleArticle = 1" and f1: "countAll matchFence sampleArticle = 0"
    by (simp_all add: sampleArticle_def reading_defs)
  have c2: "cleanText galleryArticle = js ''Gallery       end''"
    by (simp add: galleryArticle_def reading_defs)
  have w2: "length (filter (\<lambda>w. w \<noteq> []) (splitWhiteSpace (cleanText galleryArticle))) = 2"
    unfolding c2 by (simp add: js_def splitWhiteSpace.simps isWhiteSpace_def Let_def)
  have i2: "countAll matchImage galleryArticle = 5" and f2: "countAll matchFence galleryArticle = 1"
    by (simp_all add: galleryArticle_def reading_defs)
  note s = calculateReadingTime_minutes_and_text [of sampleArticle]
  note g = calculateReadingTime_minutes_and_text [of galleryArticle]
  have sw: "words (calculateReadingTime sampleArticle) = 6"
    using s [THEN conjunct2, THEN conjunct1] w1 by simp
  have sm: "minutes (calculateReadingTime sampleArticle) = 1"
    using s [THEN conjunct2, THEN conjunct2, THEN conjunct2, THEN conjunct1] by (simp add: sw i1 f1)
  have st: "text' (calculateReadingTime sampleArticle) = js ''1 minute read''"
    using s [THEN conjunct2, THEN conjunct2, THEN conjunct2, THEN conjunct2] by (simp add: sm)
  have gw: "words (calculateReadingTime galleryArticle) = 2"
    using g [THEN conjunct2, THEN conjunct1] w2 by simp
  have gm: "minutes (calculateReadingTime galleryArticle) = 2"
    using g [THEN conjunct2, THEN conjunct2, THEN conjunct2, THEN conjunct1] by (simp add: gw i2 f2)
  have gt: "text' (calculateReadingTime galleryArticle) = js ''2 minutes read''"
    using g [THEN conjunct2, THEN conjunct2, THEN conjunct2, THEN conjunct2]
    by (simp add: gm showNat.simps js_def)
  show ?thesis using c1 sw i1 f1 sm st c2 gw i2 f2 gm gt by simp
qed

section \<open>Properties of the command line script\<close>

lemmas shell_defs =
  helpOption_def nameOption_def dirOption_def versionOption_def pathOption_def
  usage_init_def usage_update_def unknownCommand_def script_def main_def cli_init_def cli_update_def download_project_def create_config_file_def
  sync_walle_files_def sync_files_def walleFiles_def command_def andThen_def print_info_def
  print_error_def catch_def initialShell_def GITHUB_WALLE_REPO_def apostrophe_def

lemma update_run_with_failed_copy:
  "script cpFailsEnv [''update'', ''-p'', ''/site'']
     = (Some 0,

  \<lparr>invoked =
     [([''mktemp'', ''-d''], 0), ([''cd'', ''/work''], 0),
      ([''git'', ''clone'', ''-b'', ''main'',
        ''https://github.com/FabrizioCafolla/walle-design-system'', ''/t''],
       0),
      ([''cd'', ''/t''], 0),
      ([''git'', ''rev-parse'', ''--short'', ''HEAD''], 0),
      ([''cd'', ''-''], 0),
      ([''cp'', ''-r'', ''/t/.devcontainer/@walle'',
        ''/site/.devcontainer/@walle''],
       0),
      ([''cp'', ''-r'', ''/t/.vscode'', ''/site/.vscode''], 0),
      ([''cp'', ''-r'', ''/t/lib/infrastructure/@walle'',
        ''/site/lib/infrastructure/@walle''],
       0),
      ([''cp'', ''-r'', ''/t/lib/scripts/@walle'',
        ''/site/lib/scripts/@walle''],
       0),
      ([''cp'', ''-r'', ''/t/lib/website/src/@walle'',
        ''/site/lib/website/src/@walle''],
       0),
      ([''cp'', ''-r'', ''/t/.github/workflows/actions'',
        ''/site/.github/workflows/actions''],
       1),
      ([''rm'', ''-f'', ''/site/walle.justfile''], 0),
      ([''cp'', ''/t/walle.justfile'', ''/site/walle.justfile''], 0),
      ([''rm'', ''-f'', ''/site/.devcontainer/@walle/LICENSE''], 0),
      ([''cp'', ''/t/LICENSE'', ''/site/.devcontainer/@walle/LICENSE''], 0),
      ([''rm'', ''-f'', ''/site/lib/infrastructure/@walle/LICENSE''], 0),
      ([''cp'', ''/t/LICENSE'',
        ''/site/lib/infrastructure/@walle/LICENSE''],
       0),
      ([''rm'', ''-f'', ''/site/lib/scripts/@walle/LICENSE''], 0),
      ([''cp'', ''/t/LICENSE'', ''/site/lib/scripts/@walle/LICENSE''], 0),
      ([''rm'', ''-f'', ''/site/lib/website/src/@walle/LICENSE''], 0),
      ([''cp'', ''/t/LICENSE'', ''/site/lib/website/src/@walle/LICENSE''],
       0),
      ([''rm'', ''-f'', ''/site/.github/workflows/actions/@walle/LICENSE''],
       0),
      ([''cp'', ''/t/LICENSE'',
        ''/site/.github/workflows/actions/@walle/LICENSE''],
       0),
      ([''rm'', ''-rf'', ''/t''], 0)],
     out =
       ['' [INFO] Start update project in /site to version main'',
        ''/work'',
        '' [INFO] Synchronized from /t/.devcontainer/@walle to /site/.devcontainer/@walle.'',
        '' [INFO] Synchronized from /t/.vscode to /site/.vscode.'',
        '' [INFO] Synchronized from /t/lib/infrastructure/@walle to /site/lib/infrastructure/@walle.'',
        '' [INFO] Synchronized from /t/lib/scripts/@walle to /site/lib/scripts/@walle.'',
        '' [INFO] Synchronized from /t/lib/website/src/@walle to /site/lib/website/src/@walle.'',
        '' [INFO] Synchronized from /t/.github/workflows/actions to /site/.github/workflows/actions.'',
        '' [INFO] Synchronized from /t/walle.justfile to /site/walle.justfile.'',
        '' [INFO] Synchronized from /t/LICENSE to /site/.devcontainer/@walle/LICENSE.'',
        '' [INFO] Synchronized from /t/LICENSE to /site/lib/infrastructure/@walle/LICENSE.'',
        '' [INFO] Synchronized from /t/LICENSE to /site/lib/scripts/@walle/LICENSE.'',
        '' [INFO] Synchronized from /t/LICENSE to /site/lib/website/src/@walle/LICENSE.'',
        '' [INFO] Synchronized from /t/LICENSE to /site/.github/workflows/actions/@walle/LICENSE.'',
        '' [INFO] Configuration file updated /site/.walle.config.json'',
        '' [INFO] Project updated successfully''],
     written = [(''/site/.walle.config.json'', configText ''site'' ''a1b2c3d'' ''2025-01-31T10:20:30'')],
     tempPresent = False, versionBranch = ''main'', versionSha = ''a1b2c3d''\<rparr>)"
  by (simp add: shell_defs cpFailsEnv_def calmEnv_def failingCopy_def Let_def)

text \<open>
  Claim C8, at a failing input. In \<open>update\<close> the copy into a directory whose parent is
  missing exits with status 1. The script goes on, reports the files as synchronized,
  writes the configuration and exits with status 0; no line it prints contains
  \<open>[ERROR]\<close>.
\<close>

theorem update_ignores_failed_copy:
  "fst (script cpFailsEnv [''update'', ''-p'', ''/site'']) = Some 0
   \<and> status cpFailsEnv failingCopy = 1
   \<and> (failingCopy, 1) \<in> set (invoked (snd (script cpFailsEnv [''update'', ''-p'', ''/site''])))
   \<and> list_all (\<lambda>l. \<not> hasInfix ''[ERROR]'' l) (out (snd (script cpFailsEnv [''update'', ''-p'', ''/site''])))
   \<and> last (out (snd (script cpFailsEnv [''update'', ''-p'', ''/site''])))
        = '' [INFO] Project updated successfully''"
proof -
  have "status cpFailsEnv failingCopy = 1" by (simp add: cpFailsEnv_def)
  moreover have "(failingCopy, 1) \<in> set (invoked (snd (script cpFailsEnv [''update'', ''-p'', ''/site''])))"
    unfolding update_run_with_failed_copy by (simp add: failingCopy_def)
  moreover have "list_all (\<lambda>l. \<not> hasInfix ''[ERROR]'' l)
      (out (snd (script cpFailsEnv [''update'', ''-p'', ''/site''])))"
    unfolding update_run_with_failed_copy by simp
  ultimately show ?thesis unfolding update_run_with_failed_copy by simp
qed

text \<open>
  Claim C9, at a failing input. \<open>init\<close> for a project name with a quotation mark in it
  succeeds and writes \<open>.walle.config.json\<close> with the name put between quotation marks
  as it is: the text is not a JSON object, while for the name \<open>mysite\<close> it is the
  object with the three members.
\<close>

theorem init_writes_unescaped_name:
  "fst (script calmEnv [''init'', ''-n'', quotedName]) = Some 0
   \<and> written (snd (script calmEnv [''init'', ''-n'', quotedName]))
       = [(''/work/'' @ quotedName @ ''/.walle.config.json'',
           configText quotedName ''main'' ''2025-01-31T10:20:30'')]
   \<and> jsonStringObject (configText quotedName ''main'' ''2025-01-31T10:20:30'') = None
   \<and> jsonStringObject (configText ''mysite'' ''main'' ''2025-01-31T10:20:30'')
       = Some [(''name'', ''mysite''), (''walleVersion'', ''main''), (''updatedAt'', ''2025-01-31T10:20:30'')]"
proof -
  have run: "script calmEnv [''init'', ''-n'', quotedName]
      = (Some 0, snd (script calmEnv [''init'', ''-n'', quotedName]))"
    and wrote: "written (snd (script calmEnv [''init'', ''-n'', quotedName]))
       = [(''/work/'' @ quotedName @ ''/.walle.config.json'',
           configText quotedName ''main'' ''2025-01-31T10:20:30'')]"
    by (simp_all add: shell_defs calmEnv_def quotedName_def quote_def Let_def)
  have bad: "jsonStringObject (configText quotedName ''main'' ''2025-01-31T10:20:30'') = None"
    by (simp add: jsonStringObject_def configText_def quotedName_def quote_def newline_def
        jsonSpace_def readQuoted_def unescape_def)
  have good: "jsonStringObject (configText ''mysite'' ''main'' ''2025-01-31T10:20:30'')
       = Some [(''name'', ''mysite''), (''walleVersion'', ''main''), (''updatedAt'', ''2025-01-31T10:20:30'')]"
    by (simp add: jsonStringObject_def configText_def quote_def newline_def
        jsonSpace_def readQuoted_def unescape_def)
  from run have "fst (script calmEnv [''init'', ''-n'', quotedName]) = Some 0" by (metis fst_conv)
  with wrote bad good show ?thesis by simp
qed


subsection \<open>What holds of every run\<close>

lemma command_out [simp]: "out (snd (command e x argv st)) = out st"
  by (simp add: command_def Let_def)

lemma catch_error_line:
  "n \<noteq> 0 \<Longrightarrow> hasInfix ''[ERROR]'' (last (out (catch e n st)))"
  by (simp add: catch_def command_def Let_def)

lemma catch_removes_temp:
  "status e [''rm'', ''-rf'', mktemp e] = 0 \<Longrightarrow> \<not> tempPresent (catch e n st)"
  by (simp add: catch_def command_def Let_def)

text \<open>
  A run that exits with a non-zero status prints the trap's \<open>[ERROR]\<close> line last, and
  whenever the script exits the temporary directory is gone, provided \<open>rm -rf\<close> on it
  succeeds.
\<close>

lemma script_exit_trap:
  assumes "fst (script e argv) = Some n"
  shows "(n \<noteq> 0 \<longrightarrow> hasInfix ''[ERROR]'' (last (out (snd (script e argv)))))
         \<and> (status e [''rm'', ''-rf'', mktemp e] = 0 \<longrightarrow> \<not> tempPresent (snd (script e argv)))"
proof -
  obtain f st where started: "(case command e True [''mktemp'', ''-d''] initialShell of
                       (Returns _, st) \<Rightarrow> main e argv (st\<lparr>tempPresent := True\<rparr>)
                     | other \<Rightarrow> other) = (f, st)"
    by (cases "(case command e True [''mktemp'', ''-d''] initialShell of
                       (Returns _, st) \<Rightarrow> main e argv (st\<lparr>tempPresent := True\<rparr>)
                     | other \<Rightarrow> other)")
  have "script e argv = (case f of Returns s \<Rightarrow> (Some s, catch e s st)
                        | Exits s \<Rightarrow> (Some s, catch e s st) | Hangs \<Rightarrow> (None, st))"
    by (simp add: script_def started Let_def split: flow.splits)
  with assms have "script e argv = (Some n, catch e n st)"
    by (cases f) auto
  then show ?thesis using catch_error_line [of n e st] catch_removes_temp [of e n st] by simp
qed

lemma readString_plain:
  "plain s \<Longrightarrow> readString acc (s @ CHR 0x22 # rest) = Some (rev acc @ s, rest)"
proof (induction s arbitrary: acc)
  case Nil
  then show ?case by (cases rest) simp_all
next
  case (Cons c s)
  then have c: "c \<noteq> CHR 0x22" "c \<noteq> CHR 0x5C" "\<not> (of_char c :: nat) < 32" and s: "plain s"
    by (simp_all add: plain_def)
  obtain d cs where split: "s @ CHR 0x22 # rest = d # cs" by (cases s) auto
  have "readString acc ((c # s) @ CHR 0x22 # rest) = readString (c # acc) (s @ CHR 0x22 # rest)"
    using c by (simp add: split)
  then show ?case using Cons.IH [OF s, of "c # acc"] by simp
qed

text \<open>
  With plain values the text written by \<open>create_config_file\<close> is a JSON object with
  exactly the three members \<open>name\<close>, \<open>walleVersion\<close> and \<open>updatedAt\<close>.
\<close>

lemma configText_plain:
  assumes "plain n" and "plain v" and "plain t"
  shows "jsonStringObject (configText n v t)
           = Some [(''name'', n), (''walleVersion'', v), (''updatedAt'', t)]"
  using readString_plain [OF assms(1), of "[]"] readString_plain [OF assms(2), of "[]"]
    readString_plain [OF assms(3), of "[]"]
  by (simp add: jsonStringObject_def configText_def quote_def newline_def jsonSpace_def
      readQuoted_def unescape_def)


lemma command_frame [simp]:
  "written (snd (command e x argv st)) = written st"
  "versionSha (snd (command e x argv st)) = versionSha st"
  by (simp_all add: command_def Let_def)

lemma print_info_frame [simp]:
  "print_info msg st = (Returns 0, st\<lparr>out := out st @ ['' [INFO] '' @ msg]\<rparr>)"
  by (simp add: print_info_def)

lemma download_project_returns:
  assumes "download_project e False dir version st = (Returns s, st')"
  shows "written st' = written st \<and> versionSha st' = revParse e"
  using assms
  by (auto simp: download_project_def command_def andThen_def print_error_def Let_def
      split: if_splits)

lemma sync_files_returns:
  assumes "sync_files e False source target st = (Returns s, st')"
  shows "written st' = written st \<and> versionSha st' = versionSha st"
  using assms
  by (auto simp: sync_files_def command_def andThen_def print_error_def Let_def
      split: if_splits)

lemma sequence_sync_returns:
  assumes "sequence (map (\<lambda>(s, t). sync_files e False (a @ s) (b @ t)) fs) st = (Returns s, st')"
  shows "written st' = written st \<and> versionSha st' = versionSha st"
  using assms
proof (induction fs arbitrary: st)
  case Nil
  then show ?case by simp
next
  case (Cons f fs)
  obtain x y where f: "f = (x, y)" by (cases f)
  show ?case
  proof (cases fs)
    case Nil
    with Cons.prems f show ?thesis using sync_files_returns by simp
  next
    case (Cons g gs)
    with Cons.prems f obtain s1 st1 where
      first: "sync_files e False (a @ x) (b @ y) st = (Returns s1, st1)"
      and rest: "sequence (map (\<lambda>(s, t). sync_files e False (a @ s) (b @ t)) fs) st1 = (Returns s, st')"
      by (auto simp: andThen_def split: prod.splits flow.splits)
    from sync_files_returns [OF first] Cons.IH [OF rest] show ?thesis by simp
  qed
qed

text \<open>
  A run of \<open>init\<close> or \<open>update\<close> that returns has written \<open>.walle.config.json\<close> in the
  project directory, with the project name, with \<open>main\<close> or with what
  \<open>git rev-parse --short HEAD\<close> printed, and with what \<open>date\<close> printed.
\<close>

lemma initOptions_stops:
  "initOptions x args opts st = Inl (f, st') \<Longrightarrow> f \<noteq> Returns s"
  by (induction x args opts st rule: initOptions.induct)
     (auto simp: unknownCommand_def print_error_def split: if_splits)

lemma updateOptions_stops:
  "updateOptions x args opts st = Inl (f, st') \<Longrightarrow> f \<noteq> Returns s"
  by (induction x args opts st rule: updateOptions.induct)
     (auto simp: unknownCommand_def print_error_def split: if_splits)

lemma sequence_unfold:
  "sequence (f # g # fs) = andThen f (sequence (g # fs))"
  "sequence [f] = f"
  by (rule ext, simp)+

lemma andThen_returns:
  assumes "andThen f g st = (Returns s, st')"
  obtains s1 st1 where "f st = (Returns s1, st1)" and "g st1 = (Returns s, st')"
  using assms by (auto simp: andThen_def split: prod.splits flow.splits)

lemma create_config_file_returns:
  assumes "create_config_file e name dir version st = (Returns s, st')"
  shows "written st' = written st
           @ [((if dir = [] then ''.'' else dir) @ ''/.walle.config.json'',
               configText name (case version of None \<Rightarrow> ''main'' | Some v \<Rightarrow> v) (date e))]"
  using assms
  by (auto simp: create_config_file_def print_error_def Let_def split: if_splits)

lemma init_returns_config:
  assumes "cli_init e False args st = (Returns s, st')"
  shows "\<exists>name dir. initOptions False args ([], projectRoot e) st = Inr (name, dir)
           \<and> written st' = written st
                @ [(dir @ ''/'' @ name @ ''/.walle.config.json'', configText name ''main'' (date e))]"
proof -
  from assms obtain name dir where opts: "initOptions False args ([], projectRoot e) st = Inr (name, dir)"
    by (cases "initOptions False args ([], projectRoot e) st")
       (auto simp: cli_init_def print_error_def split: prod.splits dest: initOptions_stops)
  let ?mk = "if \<not> isDirectory e dir then command e False [''mkdir'', ''-p'', dir]
             else (\<lambda>s. (Returns 0, s))"
  let ?info = "print_info (''Start initialize project  to version in '' @ dir @ '' directory.'')"
  let ?down = "download_project e False (dir @ ''/'' @ name) []"
  let ?conf = "create_config_file e name (dir @ ''/'' @ name) None"
  let ?done = "print_info (''Project '' @ name @ '' initialized successfully in '' @ dir @ '' directory.'')"
  have "name \<noteq> []" using assms opts by (auto simp: cli_init_def print_error_def)
  then have run: "andThen ?mk (andThen ?info (andThen ?down (andThen ?conf ?done))) st = (Returns s, st')"
    using assms opts by (simp add: cli_init_def sequence_unfold)
  from run obtain s1 st1 where mk: "?mk st = (Returns s1, st1)"
    and r1: "andThen ?info (andThen ?down (andThen ?conf ?done)) st1 = (Returns s, st')"
    by (rule andThen_returns)
  from r1 obtain s2 st2 where info: "?info st1 = (Returns s2, st2)"
    and r2: "andThen ?down (andThen ?conf ?done) st2 = (Returns s, st')"
    by (rule andThen_returns)
  from r2 obtain s3 st3 where down: "?down st2 = (Returns s3, st3)"
    and r3: "andThen ?conf ?done st3 = (Returns s, st')"
    by (rule andThen_returns)
  from r3 obtain s4 st4 where conf: "?conf st3 = (Returns s4, st4)"
    and r4: "?done st4 = (Returns s, st')"
    by (rule andThen_returns)
  have w1: "written st1 = written st" using mk by (auto simp: command_def Let_def split: if_splits)
  have w2: "written st2 = written st1" using info by auto
  have w3: "written st3 = written st2" using download_project_returns [OF down] by simp
  have w4: "written st4 = written st3
      @ [(dir @ ''/'' @ name @ ''/.walle.config.json'', configText name ''main'' (date e))]"
    using create_config_file_returns [OF conf] by simp
  have w5: "written st' = written st4" using r4 by auto
  show ?thesis using opts w1 w2 w3 w4 w5 by simp
qed

lemma update_returns_config:
  assumes "cli_update e False args st = (Returns s, st')"
  shows "\<exists>branch path. updateOptions False args (versionBranch st, projectRoot e) st = Inr (branch, path)
           \<and> written st' = written st
                @ [((if path = [] then ''.'' else path) @ ''/.walle.config.json'',
                    configText (basename e path) (revParse e) (date e))]"
proof -
  from assms obtain branch path where
    opts: "updateOptions False args (versionBranch st, projectRoot e) st = Inr (branch, path)"
    by (cases "updateOptions False args (versionBranch st, projectRoot e) st")
       (auto simp: cli_update_def print_error_def split: prod.splits dest: updateOptions_stops)
  let ?st = "st\<lparr>versionBranch := branch\<rparr>"
  let ?info = "print_info (''Start update project in '' @ path @ '' to version '' @ branch)"
  let ?down = "download_project e False (mktemp e) branch"
  let ?sync = "sync_walle_files e False (mktemp e) path"
  let ?conf = "\<lambda>s. create_config_file e (basename e path) path (Some (versionSha s)) s"
  let ?done = "print_info ''Project updated successfully''"
  have checks: "branch \<noteq> []" "isDirectory e path"
    using assms opts by (auto simp: cli_update_def print_error_def Let_def split: if_splits)
  then have run: "andThen ?info (andThen ?down (andThen ?sync (andThen ?conf ?done))) ?st = (Returns s, st')"
    using assms opts by (simp add: cli_update_def Let_def sequence_unfold)
  from run obtain s1 st1 where info: "?info ?st = (Returns s1, st1)"
    and r1: "andThen ?down (andThen ?sync (andThen ?conf ?done)) st1 = (Returns s, st')"
    by (rule andThen_returns)
  from r1 obtain s2 st2 where down: "?down st1 = (Returns s2, st2)"
    and r2: "andThen ?sync (andThen ?conf ?done) st2 = (Returns s, st')"
    by (rule andThen_returns)
  from r2 obtain s3 st3 where sync: "?sync st2 = (Returns s3, st3)"
    and r3: "andThen ?conf ?done st3 = (Returns s, st')"
    by (rule andThen_returns)
  from r3 obtain s4 st4 where conf: "?conf st3 = (Returns s4, st4)"
    and r4: "?done st4 = (Returns s, st')"
    by (rule andThen_returns)
  have w1: "written st1 = written st" using info by auto
  have w2: "written st2 = written st1" "versionSha st2 = revParse e"
    using download_project_returns [OF down] by simp_all
  have w3: "written st3 = written st2" "versionSha st3 = versionSha st2"
    using sequence_sync_returns [OF sync [unfolded sync_walle_files_def]] by simp_all
  have w4: "written st4 = written st3
      @ [((if path = [] then ''.'' else path) @ ''/.walle.config.json'',
          configText (basename e path) (versionSha st3) (date e))]"
    using create_config_file_returns [OF conf] by simp
  have w5: "written st' = written st4" using r4 by auto
  show ?thesis using opts w1 w2 w3 w4 w5 by simp
qed

end
